theory Spec2Isabelle
  imports Main
begin

section \<open>Text: Python strings over the code points 0..255\<close>

text \<open>
  Cell text, process arguments and console input are Python \<open>str\<close> values. They are
  modelled as \<open>string\<close>, one \<open>char\<close> per code point, so the model covers text whose
  code points lie in 0..255. On that range the character classes below are the ones
  of Python 3: \<open>str.isspace\<close> and the regular-expression class \<open>\s\<close> coincide, \<open>\w\<close> is
  \<open>str.isalnum\<close> plus the underscore, and \<open>str.lower\<close> maps a string character by
  character.
\<close>

definition py_isspace :: "char \<Rightarrow> bool" where
  "py_isspace c =
     (let n = (of_char c :: nat)
      in (9 \<le> n \<and> n \<le> 13) \<or> (28 \<le> n \<and> n \<le> 32) \<or> n = 133 \<or> n = 160)"

definition py_isdigit_char :: "char \<Rightarrow> bool" where
  "py_isdigit_char c =
     (let n = (of_char c :: nat)
      in (48 \<le> n \<and> n \<le> 57) \<or> n = 178 \<or> n = 179 \<or> n = 185)"

definition re_word :: "char \<Rightarrow> bool" where
  "re_word c =
     (let n = (of_char c :: nat)
      in (48 \<le> n \<and> n \<le> 57) \<or> (65 \<le> n \<and> n \<le> 90) \<or> n = 95 \<or> (97 \<le> n \<and> n \<le> 122)
         \<or> n = 170 \<or> n = 178 \<or> n = 179 \<or> n = 181 \<or> n = 185 \<or> n = 186
         \<or> (188 \<le> n \<and> n \<le> 190) \<or> (192 \<le> n \<and> n \<le> 214)
         \<or> (216 \<le> n \<and> n \<le> 246) \<or> 248 \<le> n)"

definition py_lower_char :: "char \<Rightarrow> char" where
  "py_lower_char c =
     (let n = (of_char c :: nat)
      in if (65 \<le> n \<and> n \<le> 90) \<or> (192 \<le> n \<and> n \<le> 214) \<or> (216 \<le> n \<and> n \<le> 222)
         then char_of (n + 32) else c)"

definition py_lower :: "string \<Rightarrow> string" where
  "py_lower s = map py_lower_char s"

definition py_strip :: "string \<Rightarrow> string" where
  "py_strip s = rev (dropWhile py_isspace (rev (dropWhile py_isspace s)))"

definition py_isdigit :: "string \<Rightarrow> bool" where
  "py_isdigit s = (s \<noteq> [] \<and> list_all py_isdigit_char s)"

section \<open>The fragment of \<open>re\<close> that \<open>bulk_email.py\<close> uses\<close>

text \<open>
  Both patterns of \<open>extract_email\<close> are sequences of literal characters and greedy
  \<open>[class]+\<close> repetitions. \<open>match_here\<close> is the backtracking matcher on that fragment:
  a repetition first takes the longest run of class characters and gives them back one
  at a time, down to one, until the rest of the pattern matches. It returns the length
  of the match that starts at the head of the text. \<open>re_search\<close> is \<open>re.search\<close>: it
  tries the start positions from left to right and returns the text of the first
  match (\<open>group(0)\<close>).
\<close>

datatype re_item = Lit char | Plus "char \<Rightarrow> bool"

fun greedy :: "(nat \<Rightarrow> nat option) \<Rightarrow> nat \<Rightarrow> nat option" where
  "greedy f 0 = None"
| "greedy f (Suc n) =
     (case f (Suc n) of Some m \<Rightarrow> Some (Suc n + m) | None \<Rightarrow> greedy f n)"

fun match_here :: "re_item list \<Rightarrow> string \<Rightarrow> nat option" where
  "match_here [] s = Some 0"
| "match_here (Lit c # r) [] = None"
| "match_here (Lit c # r) (x # xs) =
     (if x = c then map_option Suc (match_here r xs) else None)"
| "match_here (Plus P # r) s =
     greedy (\<lambda>n. match_here r (drop n s)) (length (takeWhile P s))"

fun re_search :: "re_item list \<Rightarrow> string \<Rightarrow> string option" where
  "re_search p [] = map_option (\<lambda>n. []) (match_here p [])"
| "re_search p (c # cs) =
     (case match_here p (c # cs) of
        Some n \<Rightarrow> Some (take n (c # cs))
      | None \<Rightarrow> re_search p cs)"

text \<open>\<^verbatim>\<open>r'mailto:([^\s",]+)'\<close>; group 1 is the match without its first seven characters.\<close>

definition mailto_addr_char :: "char \<Rightarrow> bool" where
  "mailto_addr_char c = (\<not> py_isspace c \<and> c \<noteq> CHR 0x22 \<and> c \<noteq> CHR '','')"

definition mailto_re :: "re_item list" where
  "mailto_re = map Lit ''mailto:'' @ [Plus mailto_addr_char]"

text \<open>\<^verbatim>\<open>r'[\w.+-]+@[\w.-]+\.\w+'\<close>\<close>

definition local_char :: "char \<Rightarrow> bool" where
  "local_char c = (re_word c \<or> c = CHR ''.'' \<or> c = CHR ''+'' \<or> c = CHR ''-'')"

definition domain_char :: "char \<Rightarrow> bool" where
  "domain_char c = (re_word c \<or> c = CHR ''.'' \<or> c = CHR ''-'')"

definition email_re :: "re_item list" where
  "email_re = [Plus local_char, Lit CHR ''@'', Plus domain_char, Lit CHR ''.'', Plus re_word]"

section \<open>\<open>extract_email\<close>\<close>

definition extract_email :: "string \<Rightarrow> string option" where
  "extract_email raw0 =
     (if raw0 = [] then None
      else let raw = py_strip raw0 in
        case re_search mailto_re raw of
          Some m \<Rightarrow> Some (py_lower (py_strip (drop (length ''mailto:'') m)))
        | None \<Rightarrow>
            (case re_search email_re raw of
               Some m \<Rightarrow> Some (py_lower (py_strip m))
             | None \<Rightarrow> None))"

section \<open>Spreadsheet cells and contacts\<close>

text \<open>
  A worksheet is the list of its rows, a row the list of its cell values
  (\<open>[cell.value for cell in row]\<close>). A cell value is \<open>None\<close>, a string, an integer or
  a boolean; floating-point and date cells are outside the model. \<open>py_str\<close> is \<open>str()\<close>
  and \<open>cell_truthy\<close> the truth value Python gives the cell in a condition.
\<close>

datatype cell = CNone | CStr string | CInt int | CBool bool

definition digit_char :: "nat \<Rightarrow> char" where
  "digit_char d = char_of (48 + d)"

function str_nat :: "nat \<Rightarrow> string" where
  "str_nat n = (if n < 10 then [digit_char n] else str_nat (n div 10) @ [digit_char (n mod 10)])"
  by pat_completeness auto
termination
  by (relation "measure (\<lambda>n. n)") auto

fun py_str :: "cell \<Rightarrow> string" where
  "py_str CNone = ''None''"
| "py_str (CStr s) = s"
| "py_str (CInt i) = (if i < 0 then CHR ''-'' # str_nat (nat (- i)) else str_nat (nat i))"
| "py_str (CBool b) = (if b then ''True'' else ''False'')"

fun cell_truthy :: "cell \<Rightarrow> bool" where
  "cell_truthy CNone = False"
| "cell_truthy (CStr s) = (s \<noteq> [])"
| "cell_truthy (CInt i) = (i \<noteq> 0)"
| "cell_truthy (CBool b) = b"

record contact =
  company :: string
  name :: string
  email :: string

datatype exn_class =
  IndexError | AttributeError | EOFError | RequestException | OpenAIError
  | SMTPAuthenticationError | SMTPException | OtherException

text \<open>
  An exception is its class and the text \<open>str(exc)\<close>. The class is the most specific one
  that some \<open>except\<close> clause of the repository names; \<open>SMTPException\<close> stands for
  every SMTP error other than an authentication error, \<open>OtherException\<close> for every
  other subclass of \<open>Exception\<close>.
\<close>

datatype exn = Exn exn_class string

fun exn_text :: "exn \<Rightarrow> string" where
  "exn_text (Exn c m) = m"

definition index_error :: exn where
  "index_error = Exn IndexError ''list index out of range''"

definition str_truthy :: "string option \<Rightarrow> bool" where
  "str_truthy v = (case v of None \<Rightarrow> False | Some s \<Rightarrow> s \<noteq> [])"

section \<open>The three extraction strategies, one row at a time\<close>

text \<open>The body of the row loop of \<open>read_contacts\<close> (fixed columns).\<close>

definition read_contacts_row :: "cell list \<Rightarrow> exn + contact list" where
  "read_contacts_row values =
     (if length values < 5 then Inl index_error
      else
        let company = (if cell_truthy (values ! 0) then py_strip (py_str (values ! 0))
                       else ''your company'');
            name = (if cell_truthy (values ! 1) then py_strip (py_str (values ! 1))
                    else ''Hiring Manager'');
            email = (if cell_truthy (values ! 4) then extract_email (py_str (values ! 4))
                     else None)
        in if str_truthy email
           then Inr [\<lparr>company = company, name = name, email = the email\<rparr>]
           else Inr [])"

text \<open>
  The \<open>while i + 2 < len(values)\<close> loop of \<open>read_contacts_sheet4\<close>; the result is the
  list of the contacts it appends, in order.
\<close>

function sheet4_groups :: "string \<Rightarrow> cell list \<Rightarrow> nat \<Rightarrow> contact list" where
  "sheet4_groups co values i =
     (if i + 2 < length values
      then
        let name = (if cell_truthy (values ! i) then Some (py_strip (py_str (values ! i)))
                    else None);
            email = (if cell_truthy (values ! (i + 2))
                     then extract_email (py_str (values ! (i + 2))) else None)
        in (if str_truthy name \<and> str_truthy email
            then [\<lparr>company = co, name = the name, email = the email\<rparr>]
            else [])
           @ sheet4_groups co values (i + 3)
      else [])"
  by pat_completeness auto
termination
  by (relation "measure (\<lambda>(co, values, i). length values - i)") auto

definition read_contacts_sheet4_row :: "cell list \<Rightarrow> exn + contact list" where
  "read_contacts_sheet4_row values =
     (if values = [] then Inl index_error
      else
        let company = (if cell_truthy (values ! 0) then py_strip (py_str (values ! 0))
                       else ''your company'')
        in Inr (sheet4_groups company values 1))"

text \<open>
  The \<open>for val in values[2:]\<close> loop of \<open>read_contacts_sheet2\<close>, with \<open>last_name\<close> passed
  along; the result is the list of the contacts it appends, in order.
\<close>

definition name_like :: "string \<Rightarrow> bool" where
  "name_like val_str =
     (\<not> py_isdigit val_str \<and> CHR ''/'' \<notin> set val_str \<and> length val_str > 2
      \<and> CHR ''@'' \<notin> set val_str)"

fun sheet2_scan :: "string \<Rightarrow> cell list \<Rightarrow> string option \<Rightarrow> contact list" where
  "sheet2_scan co [] last_name = []"
| "sheet2_scan co (val # vals) last_name =
     (if val = CNone then sheet2_scan co vals last_name
      else
        let val_str = py_strip (py_str val);
            email = extract_email val_str
        in if str_truthy email
           then \<lparr>company = co,
                 name = (if str_truthy last_name then the last_name else ''Hiring Manager''),
                 email = the email\<rparr>
                # sheet2_scan co vals None
           else if name_like val_str
           then sheet2_scan co vals (if last_name = None then Some val_str else last_name)
           else sheet2_scan co vals last_name)"

definition read_contacts_sheet2_row :: "cell list \<Rightarrow> exn + contact list" where
  "read_contacts_sheet2_row values =
     (if length values < 2 then Inl index_error
      else
        let company = (if cell_truthy (values ! 1) then py_strip (py_str (values ! 1))
                       else ''your company'')
        in Inr (sheet2_scan company (drop 2 values) None))"

section \<open>The world outside the scripts, and what a run does to it\<close>

text \<open>
  A JSON value as \<open>json.loads\<close> returns it (numbers are integers in the model);
  \<open>JNull\<close> is Python's \<open>None\<close>.
\<close>

datatype json =
  JNull | JBool bool | JInt int | JStr string | JArr "json list" | JObj "(string \<times> json) list"

fun json_truthy :: "json \<Rightarrow> bool" where
  "json_truthy JNull = False"
| "json_truthy (JBool b) = b"
| "json_truthy (JInt i) = (i \<noteq> 0)"
| "json_truthy (JStr s) = (s \<noteq> [])"
| "json_truthy (JArr xs) = (xs \<noteq> [])"
| "json_truthy (JObj kvs) = (kvs \<noteq> [])"

text \<open>
  Everything a run reads from outside: the arguments, the environment after
  \<open>load_dotenv()\<close>, the files, the operator's answer to \<open>input()\<close> (\<open>None\<close> at end of
  input), and the outcome of each call into a network library. \<open>workbook\<close> is \<open>None\<close>
  when \<open>EXCEL_PATH\<close> does not exist, otherwise the worksheets in order. \<open>smtp_login\<close> is
  the outcome of opening the session (\<open>smtplib.SMTP(...)\<close>, \<open>starttls()\<close>, \<open>login()\<close>);
  \<open>send_result k\<close> that of building and sending the \<open>k\<close>-th message of the run:
  \<open>None\<close> when nothing is raised. \<open>http_get\<close> is the page fetch together with the
  text extraction, \<open>chat_completion\<close> the chat request and the read of
  \<open>choices[0].message.content\<close>, \<open>json_loads\<close> is \<open>json.loads\<close> (\<open>Inl\<close>: the text of the
  \<open>JSONDecodeError\<close>).
\<close>

record world =
  argv :: "string list"
  getenv :: "string \<Rightarrow> string option"
  resume_exists :: bool
  resume_path :: string
  excel_path :: string
  workbook :: "cell list list list option"
  input_line :: "string option"
  smtp_login :: "exn option"
  send_result :: "nat \<Rightarrow> exn option"
  http_get :: "string \<Rightarrow> exn + string"
  chat_completion :: "string \<Rightarrow> exn + string option"
  json_loads :: "string \<Rightarrow> string + json"

text \<open>
  What a run does, in order: lines written to the error stream, the confirmation
  prompt, page fetches, the chat request, the opening of an SMTP session, the sends
  and the sleeps. Progress narration on standard output is not recorded.
\<close>

datatype event =
  Stderr string
  | Prompt string
  | HttpGet string
  | ChatCompletion string
  | SmtpConnect
  | SendCold contact
  | SendApplication json
  | Sleep nat

text \<open>
  A computation ends by returning a value, by \<open>sys.exit(n)\<close>, or by an exception
  that nothing catches. The exit status of a process whose \<open>main()\<close> returns is 0;
  an uncaught exception makes the interpreter exit with status 1.
\<close>

datatype abort = SysExit nat | Raised exn

type_synonym 'a result = "event list \<times> (abort + 'a)"

definition ret :: "'a \<Rightarrow> 'a result" where
  "ret x = ([], Inr x)"

definition emit :: "event \<Rightarrow> unit result" where
  "emit ev = ([ev], Inr ())"

definition sys_exit :: "nat \<Rightarrow> 'a result" where
  "sys_exit n = ([], Inl (SysExit n))"

definition raise :: "exn \<Rightarrow> 'a result" where
  "raise e = ([], Inl (Raised e))"

definition and_then :: "'a result \<Rightarrow> ('a \<Rightarrow> 'b result) \<Rightarrow> 'b result" where
  "and_then m f =
     (case m of
        (tr, Inl a) \<Rightarrow> (tr, Inl a)
      | (tr, Inr x) \<Rightarrow> (case f x of (tr', r) \<Rightarrow> (tr @ tr', r)))"

fun abort_code :: "abort \<Rightarrow> nat" where
  "abort_code (SysExit n) = n"
| "abort_code (Raised e) = 1"

fun exit_code :: "abort + 'a \<Rightarrow> nat" where
  "exit_code (Inr u) = 0"
| "exit_code (Inl a) = abort_code a"

text \<open>The events that go over the network: everything but console output and sleeping.\<close>

fun is_network :: "event \<Rightarrow> bool" where
  "is_network (Stderr m) = False"
| "is_network (Prompt p) = False"
| "is_network (Sleep d) = False"
| "is_network ev = True"

definition network_events :: "event list \<Rightarrow> event list" where
  "network_events tr = filter is_network tr"

definition py_input :: "world \<Rightarrow> string \<Rightarrow> string result" where
  "py_input w prompt =
     and_then (emit (Prompt prompt))
       (\<lambda>_. case input_line w of
               None \<Rightarrow> raise (Exn EOFError ''EOF when reading a line'')
             | Some line \<Rightarrow> ret line)"

section \<open>\<open>bulk_email.py\<close>: reading the workbook\<close>

text \<open>
  The \<open>for row in ws.iter_rows(...)\<close> loop shared by the three readers: the row body
  runs on each row in order and its contacts are appended; an exception ends the loop.
\<close>

fun read_rows :: "(cell list \<Rightarrow> exn + contact list) \<Rightarrow> cell list list \<Rightarrow> exn + contact list" where
  "read_rows body [] = Inr []"
| "read_rows body (row # rows) =
     (case body row of
        Inl e \<Rightarrow> Inl e
      | Inr cs \<Rightarrow> (case read_rows body rows of Inl e \<Rightarrow> Inl e | Inr cs' \<Rightarrow> Inr (cs @ cs')))"

definition read_sheet ::
  "world \<Rightarrow> nat \<Rightarrow> nat \<Rightarrow> (cell list \<Rightarrow> exn + contact list) \<Rightarrow> contact list result" where
  "read_sheet w sheet_index min_row body =
     (case workbook w of
        None \<Rightarrow>
          and_then (emit (Stderr (''Error: Excel file not found at '' @ excel_path w)))
            (\<lambda>_. sys_exit 1)
      | Some wb \<Rightarrow>
          if sheet_index < length wb
          then (case read_rows body (drop (min_row - 1) (wb ! sheet_index)) of
                  Inl e \<Rightarrow> raise e
                | Inr cs \<Rightarrow> ret cs)
          else raise index_error)"

definition read_contacts :: "world \<Rightarrow> nat \<Rightarrow> contact list result" where
  "read_contacts w sheet_index = read_sheet w sheet_index 2 read_contacts_row"

definition read_contacts_sheet4 :: "world \<Rightarrow> contact list result" where
  "read_contacts_sheet4 w = read_sheet w 5 1 read_contacts_sheet4_row"

definition read_contacts_sheet2 :: "world \<Rightarrow> nat \<Rightarrow> contact list result" where
  "read_contacts_sheet2 w sheet_index = read_sheet w sheet_index 2 read_contacts_sheet2_row"

section \<open>\<open>bulk_email.py\<close>: sending\<close>

definition DELAY_BETWEEN_EMAILS :: nat where
  "DELAY_BETWEEN_EMAILS = 3"

text \<open>
  \<open>send_cold_email\<close>: the \<open>try\<close> block runs for the recipient; on an exception the
  handler writes the text to the error stream and the function returns \<open>False\<close>.
\<close>

definition send_cold_email :: "world \<Rightarrow> nat \<Rightarrow> contact \<Rightarrow> bool result" where
  "send_cold_email w k recipient =
     and_then (emit (SendCold recipient))
       (\<lambda>_. case send_result w k of
               None \<Rightarrow> ret True
             | Some exc \<Rightarrow>
                 and_then (emit (Stderr (''   Failed: '' @ exn_text exc))) (\<lambda>_. ret False))"

definition smtp_session :: "world \<Rightarrow> unit result" where
  "smtp_session w =
     and_then (emit SmtpConnect)
       (\<lambda>_. case smtp_login w of None \<Rightarrow> ret () | Some exc \<Rightarrow> raise exc)"

text \<open>
  The loop \<open>for i, contact in enumerate(contacts, 1)\<close> of \<open>main\<close>, with the counters
  \<open>sent\<close> and \<open>failed\<close>; \<open>n\<close> is \<open>len(contacts)\<close>.
\<close>

fun send_loop :: "world \<Rightarrow> nat \<Rightarrow> nat \<Rightarrow> contact list \<Rightarrow> nat \<times> nat \<Rightarrow> (nat \<times> nat) result" where
  "send_loop w n i [] (sent, failed) = ret (sent, failed)"
| "send_loop w n i (c # cs) (sent, failed) =
     and_then (send_cold_email w i c)
       (\<lambda>ok. and_then (if i < n then emit (Sleep DELAY_BETWEEN_EMAILS) else ret ())
          (\<lambda>_. send_loop w n (i + 1) cs
                  (if ok then (sent + 1, failed) else (sent, failed + 1))))"

definition test_contact :: contact where
  "test_contact =
     \<lparr>company = ''TestCompany Inc.'', name = ''Nilesh (Test)'',
      email = ''nileshcodes04@gmail.com''\<rparr>"

definition bulk_test_mode :: "world \<Rightarrow> unit result" where
  "bulk_test_mode w =
     and_then (py_input w ''Send test email? (y/n): '')
       (\<lambda>line. let confirm = py_lower (py_strip line) in
          if confirm \<noteq> ''y'' then sys_exit 0
          else and_then (smtp_session w)
            (\<lambda>_. and_then (send_cold_email w 1 test_contact)
               (\<lambda>ok. if ok then ret () else emit (Stderr ''Test email failed.''))))"

definition bulk_full_mode :: "world \<Rightarrow> unit result" where
  "bulk_full_mode w =
     and_then (read_contacts_sheet2 w 4)
       (\<lambda>contacts. and_then (py_input w ''Send all emails? (y/n): '')
          (\<lambda>line. let confirm = py_lower (py_strip line) in
             if confirm \<noteq> ''y'' then sys_exit 0
             else and_then (smtp_session w)
               (\<lambda>_. and_then (send_loop w (length contacts) 1 contacts (0, 0))
                  (\<lambda>counters. ret ()))))"

definition bulk_main :: "world \<Rightarrow> unit result" where
  "bulk_main w =
     (let test_mode = (''--test'' \<in> set (argv w));
          use_sheet4 = (''--sheet4'' \<in> set (argv w));
          app_password = getenv w ''GMAIL_APP_PASSWORD_CODES04''
      in if \<not> str_truthy app_password
         then and_then (emit (Stderr ''Error: GMAIL_APP_PASSWORD not set in .env''))
                (\<lambda>_. sys_exit 1)
         else if \<not> resume_exists w
         then and_then (emit (Stderr (''Error: Resume not found at '' @ resume_path w)))
                (\<lambda>_. sys_exit 1)
         else if test_mode then bulk_test_mode w
         else bulk_full_mode w)"

section \<open>\<open>unravel.py\<close>: scraping and the founder-info extractor\<close>

definition UNRAVEL_URLS :: "string list" where
  "UNRAVEL_URLS =
     [''https://unravel.tech'', ''https://unravel.tech/blog'', ''https://unravel.tech/talks'']"

fun exn_class_of :: "exn \<Rightarrow> exn_class" where
  "exn_class_of (Exn c m) = c"

fun py_join :: "string \<Rightarrow> string list \<Rightarrow> string" where
  "py_join sep [] = []"
| "py_join sep [x] = x"
| "py_join sep (x # y # ys) = x @ sep @ py_join sep (y # ys)"

text \<open>
  The \<open>for url in UNRAVEL_URLS\<close> loop with the list \<open>all_text\<close>: a
  \<open>requests.RequestException\<close> is reported and the page skipped, any other exception
  leaves the loop.
\<close>

fun scrape_loop :: "world \<Rightarrow> string list \<Rightarrow> string list \<Rightarrow> string list result" where
  "scrape_loop w [] all_text = ret all_text"
| "scrape_loop w (url # urls) all_text =
     and_then (emit (HttpGet url))
       (\<lambda>_. case http_get w url of
               Inr text \<Rightarrow>
                 scrape_loop w urls
                   (all_text @ [''--- Content from '' @ url @ '' ---'' @ [CHR 0x0A] @ text])
             | Inl exc \<Rightarrow>
                 if exn_class_of exc = RequestException
                 then and_then
                        (emit (Stderr (''Warning: Could not fetch '' @ url @ '': '' @ exn_text exc)))
                        (\<lambda>_. scrape_loop w urls all_text)
                 else raise exc)"

definition scrape_unravel_profiles :: "world \<Rightarrow> string result" where
  "scrape_unravel_profiles w =
     and_then (scrape_loop w UNRAVEL_URLS [])
       (\<lambda>all_text.
          if all_text = []
          then and_then (emit (Stderr ''Error: Could not fetch any content from unravel.tech''))
                 (\<lambda>_. sys_exit 1)
          else ret (py_join [CHR 0x0A, CHR 0x0A] all_text))"

definition build_user_prompt :: "string \<Rightarrow> string" where
  "build_user_prompt profiles =
     ''Scraped content from unravel.tech:'' @ [CHR 0x0A, CHR 0x0A] @ profiles"

text \<open>The three lines written when \<open>GROQ_API_KEY\<close> is not set.\<close>

definition GROQ_KEY_ERROR :: string where
  "GROQ_KEY_ERROR =
     ''Error: GROQ_API_KEY environment variable is not set.'' @ [CHR 0x0A]
     @ ''Get a free key at: https://console.groq.com/keys'' @ [CHR 0x0A]
     @ ''Then add to your .env file:  GROQ_API_KEY=gsk_...''"

definition extract_founder_info :: "world \<Rightarrow> string \<Rightarrow> json result" where
  "extract_founder_info w profiles =
     (let api_key = getenv w ''GROQ_API_KEY'' in
      if \<not> str_truthy api_key
      then and_then (emit (Stderr GROQ_KEY_ERROR)) (\<lambda>_. sys_exit 1)
      else
        and_then (emit (ChatCompletion (build_user_prompt profiles)))
          (\<lambda>_. case chat_completion w (build_user_prompt profiles) of
                  Inl exc \<Rightarrow>
                    if exn_class_of exc = OpenAIError
                    then and_then (emit (Stderr (''Groq API error: '' @ exn_text exc)))
                           (\<lambda>_. sys_exit 1)
                    else raise exc
                | Inr raw_content \<Rightarrow>
                    if \<not> str_truthy raw_content
                    then and_then (emit (Stderr ''Error: LLM returned an empty response.''))
                           (\<lambda>_. sys_exit 1)
                    else (case json_loads w (the raw_content) of
                            Inl exc_text \<Rightarrow>
                              and_then
                                (emit (Stderr (''Error: Failed to parse LLM response as JSON.''
                                               @ [CHR 0x0A] @ ''Raw response: '' @ the raw_content
                                               @ [CHR 0x0A] @ ''Parse error:  '' @ exc_text)))
                                (\<lambda>_. sys_exit 1)
                          | Inr result \<Rightarrow> ret result)))"

section \<open>\<open>send_email.py\<close>\<close>

text \<open>
  \<open>result.get(key)\<close>: on a JSON object the value stored under the key, or \<open>None\<close>; a
  value of any other type has no \<open>get\<close>.
\<close>

fun json_type_name :: "json \<Rightarrow> string" where
  "json_type_name JNull = ''NoneType''"
| "json_type_name (JBool b) = ''bool''"
| "json_type_name (JInt i) = ''int''"
| "json_type_name (JStr s) = ''str''"
| "json_type_name (JArr xs) = ''list''"
| "json_type_name (JObj kvs) = ''dict''"

fun dict_get :: "json \<Rightarrow> string \<Rightarrow> json result" where
  "dict_get (JObj kvs) k = ret (case map_of kvs k of Some v \<Rightarrow> v | None \<Rightarrow> JNull)"
| "dict_get v k =
     raise (Exn AttributeError
              ([CHR 0x27] @ json_type_name v @ [CHR 0x27] @ '' object has no attribute ''
               @ [CHR 0x27] @ ''get'' @ [CHR 0x27]))"

definition send_application_email :: "world \<Rightarrow> json \<Rightarrow> unit result" where
  "send_application_email w recipient =
     (let app_password = getenv w ''GMAIL_APP_PASSWORD'' in
      if \<not> str_truthy app_password
      then and_then
             (emit (Stderr ''Error: GMAIL_APP_PASSWORD environment variable is not set.''))
             (\<lambda>_. sys_exit 1)
      else if \<not> resume_exists w
      then and_then (emit (Stderr (''Error: Resume not found at '' @ resume_path w)))
             (\<lambda>_. sys_exit 1)
      else
        case and_then (smtp_session w)
               (\<lambda>_. and_then (emit (SendApplication recipient))
                  (\<lambda>_. case send_result w 1 of None \<Rightarrow> ret () | Some exc \<Rightarrow> raise exc)) of
          (tr, Inl (Raised exc)) \<Rightarrow>
            if exn_class_of exc = SMTPAuthenticationError
            then (tr @ [Stderr ''Error: Authentication failed.''], Inl (SysExit 1))
            else if exn_class_of exc = SMTPException
            then (tr @ [Stderr (''SMTP error: '' @ exn_text exc)], Inl (SysExit 1))
            else (tr, Inl (Raised exc))
        | r \<Rightarrow> r)"

definition send_email_main :: "world \<Rightarrow> unit result" where
  "send_email_main w =
     and_then (scrape_unravel_profiles w)
       (\<lambda>profiles. and_then (extract_founder_info w profiles)
          (\<lambda>result. and_then (dict_get result ''founder_name'')
             (\<lambda>founder_name. and_then (dict_get result ''email'')
                (\<lambda>recipient.
                   if \<not> json_truthy founder_name \<or> \<not> json_truthy recipient
                   then and_then (emit (Stderr ''Error: Could not extract founder info.''))
                          (\<lambda>_. sys_exit 1)
                   else and_then (py_input w ''Send this email? (y/n): '')
                     (\<lambda>line. let confirm = py_lower (py_strip line) in
                        if confirm \<noteq> ''y'' then sys_exit 0
                        else send_application_email w recipient)))))"

section \<open>Reading a trace\<close>

text \<open>
  The events of one pass through the body of the send loop, as the loop is described:
  the attempt, the logged failure if the send raised, and the delay unless this was
  the last contact.
\<close>

definition attempt_events :: "world \<Rightarrow> nat \<Rightarrow> nat \<times> contact \<Rightarrow> event list" where
  "attempt_events w n kc =
     (case kc of (k, c) \<Rightarrow>
        [SendCold c]
        @ (case send_result w k of
             None \<Rightarrow> []
           | Some exc \<Rightarrow> [Stderr (''   Failed: '' @ exn_text exc)])
        @ (if k < n then [Sleep DELAY_BETWEEN_EMAILS] else []))"

fun attempts :: "event list \<Rightarrow> contact list" where
  "attempts [] = []"
| "attempts (SendCold c # tr) = c # attempts tr"
| "attempts (ev # tr) = attempts tr"

fun sleeps :: "event list \<Rightarrow> nat list" where
  "sleeps [] = []"
| "sleeps (Sleep d # tr) = d # sleeps tr"
| "sleeps (ev # tr) = sleeps tr"

fun is_sleep :: "event \<Rightarrow> bool" where
  "is_sleep (Sleep d) = True"
| "is_sleep ev = False"

section \<open>Sample worlds\<close>

definition bulk_world :: world where
  "bulk_world =
     \<lparr>argv = [''bulk_email.py''],
      getenv = (\<lambda>k. if k = ''GMAIL_APP_PASSWORD_CODES04'' then Some ''secret'' else None),
      resume_exists = True,
      resume_path = ''Nilesh Pataskar Resume.pdf'',
      excel_path = ''Email Excel.xlsx'',
      workbook = Some [[], [], [], [],
        [[CStr ''Sl.No'', CStr ''Client Name''],
         [CInt 1, CStr ''Acme'', CStr ''Jo Smith'', CStr ''jo@acme.com'']],
        [[CStr ''Beta'', CStr ''Al'', CInt 555, CStr ''al@beta.com'']]],
      input_line = Some ''y'',
      smtp_login = None,
      send_result = (\<lambda>k. None),
      http_get = (\<lambda>url. Inr ''page''),
      chat_completion = (\<lambda>prompt. Inr None),
      json_loads = (\<lambda>text. Inl ''Expecting value'')\<rparr>"

section \<open>What a pattern matches\<close>

text \<open>
  The texts a pattern of the fragment matches, as the pattern reads: a literal
  matches itself, \<open>[class]+\<close> a non-empty run of class characters.
\<close>

fun lang :: "re_item list \<Rightarrow> string set" where
  "lang [] = {[]}"
| "lang (Lit c # r) = {c # s | s. s \<in> lang r}"
| "lang (Plus P # r) = {a @ s | a s. a \<noteq> [] \<and> list_all P a \<and> s \<in> lang r}"

definition occurs_in :: "re_item list \<Rightarrow> string \<Rightarrow> bool" where
  "occurs_in p s = (\<exists>pre m post. s = pre @ m @ post \<and> m \<in> lang p)"


definition hyperlink_cell :: string where
  \<open>hyperlink_cell = ''=HYPERLINK("mailto:a@b.com","a@b.com")''\<close>

text \<open>
  The repeating-triplet layout as it is described: group \<open>g\<close> of a row is the name in
  column \<open>1 + 3g\<close>, the phone in column \<open>2 + 3g\<close> and the email candidate in column
  \<open>3 + 3g\<close>; it gives one contact when it has a name and a recognisable email. A
  cell is empty when Python takes it for false (\<open>None\<close>, the empty string, 0, \<open>False\<close>), and
  a name is empty also when it is all white space.
\<close>

definition row_company :: "cell \<Rightarrow> string" where
  "row_company v = (if cell_truthy v then py_strip (py_str v) else ''your company'')"

definition triplet_contact :: "string \<Rightarrow> cell list \<Rightarrow> nat \<Rightarrow> contact list" where
  "triplet_contact co values g =
     (let name_cell = values ! (1 + 3 * g); email_cell = values ! (3 + 3 * g)
      in if cell_truthy name_cell \<and> py_strip (py_str name_cell) \<noteq> []
            \<and> cell_truthy email_cell \<and> extract_email (py_str email_cell) \<noteq> None
         then [\<lparr>company = co, name = py_strip (py_str name_cell),
                email = the (extract_email (py_str email_cell))\<rparr>]
         else [])"

text \<open>
  The scan-and-pair layout as a state machine over the cells from column 2 onward: the
  state is the pending name and the contacts emitted so far. An empty cell changes
  nothing; a cell whose trimmed text normalizes to an email emits a contact with the
  pending name, or the placeholder, and clears the pending name; any other cell
  becomes the pending name when none is pending and its trimmed text passes the name
  test.
\<close>

definition scan_step ::
  "string \<Rightarrow> string option \<times> contact list \<Rightarrow> cell \<Rightarrow> string option \<times> contact list" where
  "scan_step co st v =
     (case st of (pending, out) \<Rightarrow>
        if v = CNone then (pending, out)
        else (case extract_email (py_strip (py_str v)) of
                Some e \<Rightarrow>
                  (None,
                   out @ [\<lparr>company = co,
                           name = (case pending of Some n \<Rightarrow> n | None \<Rightarrow> ''Hiring Manager''),
                           email = e\<rparr>])
              | None \<Rightarrow>
                  (if pending = None \<and> name_like (py_strip (py_str v))
                   then Some (py_strip (py_str v)) else pending,
                   out)))"


definition scan_row_example :: "cell list" where
  "scan_row_example =
     [CInt 1, CStr ''Acme'', CStr ''Jo Smith'', CStr ''Director'', CInt 5551234,
      CStr ''jo@acme.com'']"


section \<open>Kinds of events, and the operator's answer\<close>

fun is_smtp :: "event \<Rightarrow> bool" where
  "is_smtp SmtpConnect = True"
| "is_smtp (SendCold c) = True"
| "is_smtp (SendApplication r) = True"
| "is_smtp ev = False"

fun is_fetch :: "event \<Rightarrow> bool" where
  "is_fetch (HttpGet url) = True"
| "is_fetch ev = False"

fun is_prompt :: "event \<Rightarrow> bool" where
  "is_prompt (Prompt p) = True"
| "is_prompt ev = False"

fun is_stderr :: "event \<Rightarrow> bool" where
  "is_stderr (Stderr m) = True"
| "is_stderr ev = False"

text \<open>
  The operator declines when the answer, trimmed and lower-cased, is anything but \<open>y\<close>
  (the word \<open>yes\<close> declines too), and confirms when it is \<open>y\<close>; at end of input there is
  no answer.
\<close>

definition declined :: "world \<Rightarrow> bool" where
  "declined w =
     (case input_line w of None \<Rightarrow> False | Some line \<Rightarrow> py_lower (py_strip line) \<noteq> ''y'')"

definition confirmed :: "world \<Rightarrow> bool" where
  "confirmed w =
     (case input_line w of None \<Rightarrow> False | Some line \<Rightarrow> py_lower (py_strip line) = ''y'')"

text \<open>
  The recipient with which \<open>send_email.py\<close> reaches its confirmation prompt, if it
  does: the pages were scraped, the extractor returned a JSON object, and both of its
  fields are truthy.
\<close>

definition founder_recipient :: "world \<Rightarrow> json option" where
  "founder_recipient w =
     (case snd (scrape_unravel_profiles w) of
        Inl a \<Rightarrow> None
      | Inr profiles \<Rightarrow>
          (case snd (extract_founder_info w profiles) of
             Inr (JObj kvs) \<Rightarrow>
               (let founder_name = (case map_of kvs ''founder_name'' of Some v \<Rightarrow> v | None \<Rightarrow> JNull);
                    recipient = (case map_of kvs ''email'' of Some v \<Rightarrow> v | None \<Rightarrow> JNull)
                in if json_truthy founder_name \<and> json_truthy recipient then Some recipient
                   else None)
           | _ \<Rightarrow> None))"

definition null_reply :: string where
  \<open>null_reply = ''{"founder_name": null, "email": null}''\<close>

definition founder_reply :: string where
  \<open>founder_reply = ''{"founder_name": "Prajwalit X", "email": "prajwalit@unrel.tech"}''\<close>

definition founder_world :: world where
  "founder_world =
     \<lparr>argv = [''send_email.py''],
      getenv = (\<lambda>k. if k = ''GMAIL_APP_PASSWORD'' then Some ''secret''
                     else if k = ''GROQ_API_KEY'' then Some ''gsk'' else None),
      resume_exists = True,
      resume_path = ''Nilesh Pataskar Resume.pdf'',
      excel_path = ''Email Excel.xlsx'',
      workbook = None,
      input_line = Some ''y'',
      smtp_login = None,
      send_result = (\<lambda>k. None),
      http_get = (\<lambda>url. if url = ''https://unravel.tech'' then Inr ''Founders''
                         else Inl (Exn RequestException ''404'')),
      chat_completion = (\<lambda>prompt. Inr (Some founder_reply)),
      json_loads = (\<lambda>text.
         if text = null_reply then Inr (JObj [(''founder_name'', JNull), (''email'', JNull)])
         else if text = founder_reply
         then Inr (JObj [(''founder_name'', JStr ''Prajwalit X''),
                         (''email'', JStr ''prajwalit@unrel.tech'')])
         else Inl ''Expecting value'')\<rparr>"

definition null_world :: world where
  "null_world = founder_world\<lparr>chat_completion := (\<lambda>prompt. Inr (Some null_reply))\<rparr>"

definition null_profiles :: string where
  "null_profiles = ''--- Content from https://unravel.tech ---'' @ [CHR 0x0A] @ ''Founders''"

definition test_fail_world :: world where
  "test_fail_world =
     bulk_world\<lparr>argv := [''bulk_email.py'', ''--test''],
                send_result := (\<lambda>k. Some (Exn SMTPException ''Connection unexpectedly closed''))\<rparr>"

definition no_key_world :: world where
  "no_key_world =
     founder_world\<lparr>getenv := (\<lambda>k. if k = ''GMAIL_APP_PASSWORD'' then Some ''secret'' else None)\<rparr>"

definition no_password_world :: world where
  "no_password_world =
     founder_world\<lparr>getenv := (\<lambda>k. if k = ''GROQ_API_KEY'' then Some ''gsk'' else None)\<rparr>"

text \<open>Whether a computation returned, rather than exiting or raising.\<close>

fun returns :: "abort + 'a \<Rightarrow> bool" where
  "returns (Inr x) = True"
| "returns (Inl a) = False"

section \<open>The send loop\<close>

lemma and_then_ret [simp]: "and_then (ret x) f = f x"
  by (simp add: and_then_def ret_def split: prod.splits)

lemma and_then_emit [simp]: "and_then (emit ev) f = (ev # fst (f ()), snd (f ()))"
  by (simp add: and_then_def emit_def split: prod.splits)

lemma and_then_sys_exit [simp]: "and_then (sys_exit n) f = sys_exit n"
  by (simp add: and_then_def sys_exit_def)

lemma and_then_raise [simp]: "and_then (raise e) f = raise e"
  by (simp add: and_then_def raise_def)

lemma and_then_Inr: "m = (tr, Inr x) \<Longrightarrow> and_then m f = (tr @ fst (f x), snd (f x))"
  by (simp add: and_then_def split: prod.splits)

lemma and_then_Inl: "m = (tr, Inl a) \<Longrightarrow> and_then m f = (tr, Inl a)"
  by (simp add: and_then_def)

lemma send_cold_email_eq:
  "send_cold_email w k c =
     (SendCold c # (case send_result w k of
                      None \<Rightarrow> []
                    | Some exc \<Rightarrow> [Stderr (''   Failed: '' @ exn_text exc)]),
      Inr (send_result w k = None))"
  by (simp add: send_cold_email_def ret_def split: option.splits)

lemma send_loop_run:
  "send_loop w n i cs (s, f) =
     (concat (map (attempt_events w n) (zip [i..<i + length cs] cs)),
      Inr (s + length (filter (\<lambda>k. send_result w k = None) [i..<i + length cs]),
           f + length (filter (\<lambda>k. send_result w k \<noteq> None) [i..<i + length cs])))"
proof (induction cs arbitrary: i s f)
  case Nil
  show ?case by (simp add: ret_def)
next
  case (Cons c cs)
  have upt: "[i..<i + length (c # cs)] = i # [Suc i..<Suc i + length cs]"
    by (simp add: upt_rec)
  show ?case
    unfolding upt
    by (simp add: send_cold_email_eq and_then_Inr [OF refl] Cons.IH attempt_events_def ret_def
          split: option.splits)
qed

lemma attempts_append [simp]: "attempts (xs @ ys) = attempts xs @ attempts ys"
  by (induction xs rule: attempts.induct) auto

lemma sleeps_append [simp]: "sleeps (xs @ ys) = sleeps xs @ sleeps ys"
  by (induction xs rule: sleeps.induct) auto

lemma attempts_run:
  "length ks = length cs \<Longrightarrow> attempts (concat (map (attempt_events w n) (zip ks cs))) = cs"
  by (induction ks cs rule: list_induct2) (auto simp: attempt_events_def split: option.splits)

lemma sleeps_run:
  "length ks = length cs \<Longrightarrow>
   sleeps (concat (map (attempt_events w n) (zip ks cs))) =
   map (\<lambda>k. DELAY_BETWEEN_EMAILS) (filter (\<lambda>k. k < n) ks)"
  by (induction ks cs rule: list_induct2) (auto simp: attempt_events_def split: option.splits)

lemma filter_less_upt: "filter (\<lambda>k. k < n) [Suc 0..<Suc n] = [Suc 0..<n]"
  by (induction n) auto

lemma last_attempt_no_sleep:
  "cs \<noteq> [] \<Longrightarrow>
   \<not> is_sleep (last (concat (map (attempt_events w (length cs)) (zip [1..<Suc (length cs)] cs))))"
proof (induction cs rule: rev_induct)
  case Nil
  then show ?case by simp
next
  case (snoc c cs)
  have u: "[1..<Suc (length (cs @ [c]))] = [1..<Suc (length cs)] @ [Suc (length cs)]"
    by simp
  have z: "zip [1..<Suc (length (cs @ [c]))] (cs @ [c]) =
           zip [1..<Suc (length cs)] cs @ [(Suc (length cs), c)]"
  proof -
    have len: "length [1..<Suc (length cs)] = length cs"
      by (simp del: upt_Suc)
    show ?thesis
      unfolding u using zip_append [OF len, of "[Suc (length cs)]" "[c]"]
      by (simp del: upt_Suc)
  qed
  show ?case
    unfolding z by (simp add: attempt_events_def split: option.splits)
qed

text \<open>
  C4. In the bulk send loop an exception during a send is caught inside
  \<open>send_cold_email\<close>, written to the error stream and counted as a failure, and the loop
  goes on: run on the contacts \<open>cs\<close>, the loop always returns, its trace is, contact by
  contact in list order, the attempt, the logged failure if that send raised, and the
  fixed delay after every contact but the last; the attempts are exactly \<open>cs\<close>, there are
  \<open>length cs - 1\<close> delays, and the trace does not end in a delay. With three contacts of
  which only the second send raises, all three are attempted and the counters end at
  sent = 2 and failed = 1.
\<close>

theorem send_loop_continues_after_failure:
  "send_loop w (length cs) 1 cs (0, 0) =
     (concat (map (attempt_events w (length cs)) (zip [1..<Suc (length cs)] cs)),
      Inr (length (filter (\<lambda>k. send_result w k = None) [1..<Suc (length cs)]),
           length (filter (\<lambda>k. send_result w k \<noteq> None) [1..<Suc (length cs)])))
   \<and> attempts (fst (send_loop w (length cs) 1 cs (0, 0))) = cs
   \<and> sleeps (fst (send_loop w (length cs) 1 cs (0, 0))) =
       replicate (length cs - 1) DELAY_BETWEEN_EMAILS
   \<and> (cs \<noteq> [] \<longrightarrow> \<not> is_sleep (last (fst (send_loop w (length cs) 1 cs (0, 0)))))
   \<and> send_loop (w\<lparr>send_result := (\<lambda>k. if k = 2 then Some exc else None)\<rparr>) 3 1 [c1, c2, c3] (0, 0) =
       ([SendCold c1, Sleep 3, SendCold c2, Stderr (''   Failed: '' @ exn_text exc), Sleep 3,
         SendCold c3],
        Inr (2, 1))"
proof -
  have run: "send_loop w (length cs) 1 cs (0, 0) =
     (concat (map (attempt_events w (length cs)) (zip [1..<Suc (length cs)] cs)),
      Inr (length (filter (\<lambda>k. send_result w k = None) [1..<Suc (length cs)]),
           length (filter (\<lambda>k. send_result w k \<noteq> None) [1..<Suc (length cs)])))"
    using send_loop_run [of w "length cs" 1 cs 0 0] by simp
  have att: "attempts (fst (send_loop w (length cs) 1 cs (0, 0))) = cs"
    unfolding run by (simp add: attempts_run del: upt_Suc)
  have sl: "sleeps (fst (send_loop w (length cs) 1 cs (0, 0))) =
       replicate (length cs - 1) DELAY_BETWEEN_EMAILS"
    unfolding run by (simp add: sleeps_run filter_less_upt map_replicate_const del: upt_Suc)
  have lst: "cs \<noteq> [] \<longrightarrow> \<not> is_sleep (last (fst (send_loop w (length cs) 1 cs (0, 0))))"
    unfolding run using last_attempt_no_sleep [of cs w] by (simp del: upt_Suc)
  have three: "send_loop (w\<lparr>send_result := (\<lambda>k. if k = 2 then Some exc else None)\<rparr>) 3 1
         [c1, c2, c3] (0, 0) =
       ([SendCold c1, Sleep 3, SendCold c2, Stderr (''   Failed: '' @ exn_text exc), Sleep 3,
         SendCold c3],
        Inr (2, 1))"
    by (simp add: send_cold_email_eq and_then_Inr [OF refl] ret_def DELAY_BETWEEN_EMAILS_def)
  from run att sl lst three show ?thesis by blast
qed

theorem send_loop_continues_after_failure_witness:
  "[test_contact, test_contact] \<noteq> []
   \<and> \<not> is_sleep (last (fst (send_loop bulk_world 2 1 [test_contact, test_contact] (0, 0))))
   \<and> attempts (fst (send_loop bulk_world 2 1 [test_contact, test_contact] (0, 0))) =
       [test_contact, test_contact]"
proof -
  have n: "length [test_contact, test_contact] = 2"
    by simp
  note t = send_loop_continues_after_failure [of bulk_world "[test_contact, test_contact]", unfolded n]
  from t [THEN conjunct2, THEN conjunct1] t [THEN conjunct2, THEN conjunct2, THEN conjunct2, THEN conjunct1]
  show ?thesis
    by (simp del: send_loop.simps)
qed

text \<open>
  C10. For every contact list, the bulk send loop returns normally with counters that
  add up to the length of the list: \<open>sent\<close> counts the sends that did not raise, \<open>failed\<close>
  those that did, so every attempt is counted on exactly one side; and the attempts of
  the run are the contacts of the list, each once, in order.
\<close>

theorem send_loop_counts_every_contact:
  "snd (send_loop w (length cs) 1 cs (0, 0)) =
     Inr (length (filter (\<lambda>k. send_result w k = None) [1..<Suc (length cs)]),
          length (filter (\<lambda>k. \<not> send_result w k = None) [1..<Suc (length cs)]))
   \<and> length (filter (\<lambda>k. send_result w k = None) [1..<Suc (length cs)])
       + length (filter (\<lambda>k. \<not> send_result w k = None) [1..<Suc (length cs)]) = length cs
   \<and> attempts (fst (send_loop w (length cs) 1 cs (0, 0))) = cs"
proof -
  have run: "send_loop w (length cs) 1 cs (0, 0) =
     (concat (map (attempt_events w (length cs)) (zip [1..<Suc (length cs)] cs)),
      Inr (length (filter (\<lambda>k. send_result w k = None) [1..<Suc (length cs)]),
           length (filter (\<lambda>k. send_result w k \<noteq> None) [1..<Suc (length cs)])))"
    using send_loop_run [of w "length cs" 1 cs 0 0] by simp
  have total: "length (filter (\<lambda>k. send_result w k = None) [1..<Suc (length cs)])
       + length (filter (\<lambda>k. \<not> send_result w k = None) [1..<Suc (length cs)]) = length cs"
    using sum_length_filter_compl [of "\<lambda>k. send_result w k = None" "[1..<Suc (length cs)]"]
    by (simp del: upt_Suc)
  show ?thesis
    unfolding run using total by (simp add: attempts_run del: upt_Suc)
qed

section \<open>The matcher finds what the pattern matches\<close>

lemma greedy_Some:
  "greedy f K = Some n \<Longrightarrow> \<exists>k m. 1 \<le> k \<and> k \<le> K \<and> f k = Some m \<and> n = k + m"
proof (induction K)
  case 0
  then show ?case by simp
next
  case (Suc K)
  show ?case
  proof (cases "f (Suc K)")
    case None
    with Suc.prems have "greedy f K = Some n" by simp
    from Suc.IH [OF this] show ?thesis by (metis le_Suc_eq)
  next
    case (Some m)
    with Suc.prems have "n = Suc K + m" by simp
    with Some show ?thesis by (intro exI [of _ "Suc K"] exI [of _ m]) simp
  qed
qed

lemma greedy_None: "greedy f K = None \<Longrightarrow> 1 \<le> k \<Longrightarrow> k \<le> K \<Longrightarrow> f k = None"
proof (induction K)
  case 0
  then show ?case by simp
next
  case (Suc K)
  then show ?case by (cases "f (Suc K)") (auto simp: le_Suc_eq)
qed

lemma take_le_takeWhile:
  "k \<le> length (takeWhile P s) \<Longrightarrow> list_all P (take k s) \<and> k \<le> length s"
proof -
  assume k: "k \<le> length (takeWhile P s)"
  have "take k (takeWhile P s @ dropWhile P s) = take k (takeWhile P s)"
    using k by (simp del: takeWhile_dropWhile_id)
  then have "take k s = take k (takeWhile P s)" by simp
  moreover have "list_all P (take k (takeWhile P s))"
    by (metis in_set_takeD list_all_iff set_takeWhileD)
  moreover have "length (takeWhile P s) \<le> length s" by (rule length_takeWhile_le)
  ultimately show ?thesis using k by simp
qed

lemma match_here_sound:
  "match_here p s = Some n \<Longrightarrow> n \<le> length s \<and> take n s \<in> lang p"
proof (induction p arbitrary: s n)
  case Nil
  then show ?case by simp
next
  case (Cons it r)
  show ?case
  proof (cases it)
    case (Lit c)
    with Cons.prems obtain xs m where s: "s = c # xs" and m: "match_here r xs = Some m" and n: "n = Suc m"
      by (cases s) (auto split: if_splits)
    from Cons.IH [OF m] show ?thesis using Lit s n by simp
  next
    case (Plus P)
    with Cons.prems have "greedy (\<lambda>k. match_here r (drop k s)) (length (takeWhile P s)) = Some n"
      by simp
    from greedy_Some [OF this] obtain k m where k: "1 \<le> k" "k \<le> length (takeWhile P s)"
      and m: "match_here r (drop k s) = Some m" and n: "n = k + m" by blast
    from Cons.IH [OF m] have m': "m \<le> length (drop k s)" "take m (drop k s) \<in> lang r" by simp_all
    from take_le_takeWhile [OF k(2)] have a: "list_all P (take k s)" "k \<le> length s" by simp_all
    have split: "take n s = take k s @ take m (drop k s)" unfolding n by (simp add: take_add)
    have ne: "take k s \<noteq> []" using k a by auto
    have "\<exists>a t. take n s = a @ t \<and> a \<noteq> [] \<and> list_all P a \<and> t \<in> lang r"
      using split ne a(1) m'(2) by blast
    then have "take n s \<in> lang (Plus P # r)" by simp
    moreover have "n \<le> length s" using n m' a by simp
    ultimately show ?thesis using Plus by simp
  qed
qed

lemma all_le_takeWhile: "list_all P a \<Longrightarrow> length a \<le> length (takeWhile P (a @ t))"
  by (induction a) auto

lemma match_here_complete:
  "x \<in> lang p \<Longrightarrow> match_here p (x @ rest) \<noteq> None"
proof (induction p arbitrary: x rest)
  case Nil
  then show ?case by simp
next
  case (Cons it r)
  show ?case
  proof (cases it)
    case (Lit c)
    with Cons.prems obtain t where "x = c # t" "t \<in> lang r" by auto
    with Cons.IH [of t rest] Lit show ?thesis by auto
  next
    case (Plus P)
    with Cons.prems obtain a t where x: "x = a @ t" and a: "a \<noteq> []" "list_all P a" and t: "t \<in> lang r"
      by auto
    let ?f = "\<lambda>k. match_here r (drop k (x @ rest))"
    have "?f (length a) = match_here r (t @ rest)" using x by simp
    with Cons.IH [OF t, of rest] have ne: "?f (length a) \<noteq> None" by simp
    have le: "length a \<le> length (takeWhile P (x @ rest))"
      using all_le_takeWhile [OF a(2), of "t @ rest"] x by simp
    have "greedy ?f (length (takeWhile P (x @ rest))) \<noteq> None"
    proof
      assume "greedy ?f (length (takeWhile P (x @ rest))) = None"
      from greedy_None [OF this, of "length a"] le a have "?f (length a) = None"
        by (simp add: Suc_le_eq)
      with ne show False by simp
    qed
    with Plus show ?thesis by simp
  qed
qed

lemma re_search_None:
  "re_search p s = None \<longleftrightarrow> (\<forall>pre m post. s = pre @ m @ post \<longrightarrow> m \<notin> lang p)"
proof (induction s)
  case Nil
  show ?case
  proof
    assume "re_search p [] = None"
    then have "match_here p [] = None" by simp
    with match_here_complete [of "[]" p "[]"] show "\<forall>pre m post. [] = pre @ m @ post \<longrightarrow> m \<notin> lang p"
      by auto
  next
    assume a: "\<forall>pre m post. [] = pre @ m @ post \<longrightarrow> m \<notin> lang p"
    show "re_search p [] = None"
    proof (cases "match_here p []")
      case None then show ?thesis by simp
    next
      case (Some n)
      from match_here_sound [OF Some] have "[] \<in> lang p" by simp
      with a show ?thesis by auto
    qed
  qed
next
  case (Cons c cs)
  show ?case
  proof
    assume n: "re_search p (c # cs) = None"
    then have mh: "match_here p (c # cs) = None" and rs: "re_search p cs = None"
      by (auto split: option.splits)
    show "\<forall>pre m post. c # cs = pre @ m @ post \<longrightarrow> m \<notin> lang p"
    proof (intro allI impI)
      fix pre m post assume h: "c # cs = pre @ m @ post"
      show "m \<notin> lang p"
      proof (cases pre)
        case Nil
        with h mh match_here_complete [of m p post] show ?thesis by auto
      next
        case (Cons d pre')
        with h have "cs = pre' @ m @ post" by simp
        with rs Cons.IH show ?thesis by blast
      qed
    qed
  next
    assume a: "\<forall>pre m post. c # cs = pre @ m @ post \<longrightarrow> m \<notin> lang p"
    have "match_here p (c # cs) = None"
    proof (cases "match_here p (c # cs)")
      case None then show ?thesis .
    next
      case (Some n)
      from match_here_sound [OF Some] have "n \<le> length (c # cs)" "take n (c # cs) \<in> lang p" by simp_all
      moreover have "c # cs = [] @ take n (c # cs) @ drop n (c # cs)" by simp
      ultimately show ?thesis using a by blast
    qed
    moreover have "re_search p cs = None"
    proof -
      have "\<forall>pre m post. cs = pre @ m @ post \<longrightarrow> m \<notin> lang p"
      proof (intro allI impI)
        fix pre m post assume "cs = pre @ m @ post"
        then have "c # cs = (c # pre) @ m @ post" by simp
        with a show "m \<notin> lang p" by blast
      qed
      with Cons.IH show ?thesis by simp
    qed
    ultimately show "re_search p (c # cs) = None" by simp
  qed
qed

section \<open>Characters, and the two patterns of \<open>extract_email\<close>\<close>

lemma py_lower_char_idem: "py_lower_char (py_lower_char c) = py_lower_char c"
  by (auto simp: py_lower_char_def Let_def)

lemma py_lower_idem: "py_lower (py_lower s) = py_lower s"
  by (simp add: py_lower_def py_lower_char_idem)

lemma py_isspace_lower: "py_isspace (py_lower_char c) = py_isspace c"
  by (auto simp: py_lower_char_def py_isspace_def Let_def)

lemma py_strip_id: "s \<noteq> [] \<Longrightarrow> \<not> py_isspace (hd s) \<Longrightarrow> \<not> py_isspace (last s) \<Longrightarrow> py_strip s = s"
proof -
  assume s: "s \<noteq> []" and h: "\<not> py_isspace (hd s)" and l: "\<not> py_isspace (last s)"
  have 1: "dropWhile py_isspace s = s" using s h by (cases s) auto
  have 2: "dropWhile py_isspace (rev s) = rev s" using s l by (cases s rule: rev_cases) auto
  show ?thesis by (simp add: py_strip_def 1 2)
qed

lemma re_word_not_space: "re_word c \<Longrightarrow> \<not> py_isspace c"
  by (auto simp: re_word_def py_isspace_def Let_def)

lemma local_not_space: "local_char c \<Longrightarrow> \<not> py_isspace c"
  by (auto simp: local_char_def re_word_not_space) (simp_all add: py_isspace_def)

lemma mailto_addr_not_space: "mailto_addr_char c \<Longrightarrow> \<not> py_isspace c"
  by (simp add: mailto_addr_char_def)

lemma match_here_lits:
  "match_here (map Lit lit @ r) s =
     (if take (length lit) s = lit
      then map_option (\<lambda>n. length lit + n) (match_here r (drop (length lit) s))
      else None)"
proof (induction lit arbitrary: s)
  case Nil
  show ?case by (cases "match_here r s") simp_all
next
  case (Cons c lit)
  show ?case
  proof (cases s)
    case Nil
    then show ?thesis by simp
  next
    case (Cons x xs)
    then show ?thesis using Cons.IH [of xs] by (auto simp: option.map_comp comp_def)
  qed
qed

lemma greedy_last:
  "greedy (\<lambda>k. Some 0) K = (if K = 0 then None else Some K)"
  by (cases K) auto

lemma match_here_mailto:
  "match_here mailto_re s =
     (if take 7 s = ''mailto:'' \<and> takeWhile mailto_addr_char (drop 7 s) \<noteq> []
      then Some (7 + length (takeWhile mailto_addr_char (drop 7 s)))
      else None)"
  unfolding mailto_re_def match_here_lits by (simp add: greedy_last eval_nat_numeral)

lemma lang_mailto:
  "m \<in> lang mailto_re \<longleftrightarrow>
   (\<exists>a. m = ''mailto:'' @ a \<and> a \<noteq> [] \<and> list_all mailto_addr_char a)"
  by (auto simp: mailto_re_def)

lemma lang_email:
  "m \<in> lang email_re \<longleftrightarrow>
   (\<exists>a d t. m = a @ ''@'' @ d @ ''.'' @ t \<and> a \<noteq> [] \<and> list_all local_char a
      \<and> d \<noteq> [] \<and> list_all domain_char d \<and> t \<noteq> [] \<and> list_all re_word t)"
proof
  assume "m \<in> lang email_re"
  then show "\<exists>a d t. m = a @ ''@'' @ d @ ''.'' @ t \<and> a \<noteq> [] \<and> list_all local_char a
      \<and> d \<noteq> [] \<and> list_all domain_char d \<and> t \<noteq> [] \<and> list_all re_word t"
    by (auto simp: email_re_def)
next
  assume "\<exists>a d t. m = a @ ''@'' @ d @ ''.'' @ t \<and> a \<noteq> [] \<and> list_all local_char a
      \<and> d \<noteq> [] \<and> list_all domain_char d \<and> t \<noteq> [] \<and> list_all re_word t"
  then obtain a d t where m: "m = a @ ''@'' @ d @ ''.'' @ t" and a: "a \<noteq> []" "list_all local_char a"
    and d: "d \<noteq> []" "list_all domain_char d" and t: "t \<noteq> []" "list_all re_word t"
    by blast
  have 1: "CHR ''.'' # t \<in> lang [Lit CHR ''.'', Plus re_word]" using t by simp
  have 2: "d @ CHR ''.'' # t \<in> lang [Plus domain_char, Lit CHR ''.'', Plus re_word]"
    using 1 d by (simp del: lang.simps(2) add: lang.simps(3)) blast
  have 3: "CHR ''@'' # d @ CHR ''.'' # t \<in> lang [Lit CHR ''@'', Plus domain_char, Lit CHR ''.'', Plus re_word]"
    using 2 by simp
  have "a @ CHR ''@'' # d @ CHR ''.'' # t \<in> lang email_re"
    unfolding email_re_def using 3 a by (simp del: lang.simps(2) add: lang.simps(3)) blast
  then show "m \<in> lang email_re" using m by simp
qed

lemma re_search_Some:
  "re_search p s = Some m \<Longrightarrow>
   \<exists>pre post. s = pre @ m @ post \<and> m \<in> lang p
     \<and> match_here p (m @ post) = Some (length m)
     \<and> (\<forall>pre' m' post'. s = pre' @ m' @ post' \<and> m' \<in> lang p \<longrightarrow> length pre \<le> length pre')"
proof (induction s)
  case Nil
  then obtain n where n: "match_here p [] = Some n" and m: "m = []" by auto
  from match_here_sound [OF n] have "n = 0" "[] \<in> lang p" by simp_all
  with n m show ?case by auto
next
  case (Cons c cs)
  show ?case
  proof (cases "match_here p (c # cs)")
    case (Some n)
    with Cons.prems have m: "m = take n (c # cs)" by simp
    from match_here_sound [OF Some] have le: "n \<le> length (c # cs)" and ml: "take n (c # cs) \<in> lang p"
      by simp_all
    have 1: "c # cs = [] @ m @ drop n (c # cs)" using m by simp
    have 2: "match_here p (m @ drop n (c # cs)) = Some (length m)"
      using Some m le by (simp add: min_absorb2)
    have 3: "\<forall>pre' m' post'. c # cs = pre' @ m' @ post' \<and> m' \<in> lang p \<longrightarrow> length ([]::string) \<le> length pre'"
      by simp
    from 1 2 3 ml m show ?thesis by blast
  next
    case None
    with Cons.prems have r: "re_search p cs = Some m" by simp
    from Cons.IH [OF r] obtain pre post where cs: "cs = pre @ m @ post" and ml: "m \<in> lang p"
      and mh: "match_here p (m @ post) = Some (length m)"
      and left: "\<forall>pre' m' post'. cs = pre' @ m' @ post' \<and> m' \<in> lang p \<longrightarrow> length pre \<le> length pre'"
      by blast
    have "\<forall>pre' m' post'. c # cs = pre' @ m' @ post' \<and> m' \<in> lang p \<longrightarrow> length (c # pre) \<le> length pre'"
    proof (intro allI impI)
      fix pre' m' post'
      assume h: "c # cs = pre' @ m' @ post' \<and> m' \<in> lang p"
      show "length (c # pre) \<le> length pre'"
      proof (cases pre')
        case Nil
        with h have "c # cs = m' @ post'" "m' \<in> lang p" by simp_all
        with match_here_complete [of m' p post'] None show ?thesis by simp
      next
        case (Cons d pre'')
        with h have "cs = pre'' @ m' @ post'" "m' \<in> lang p" by simp_all
        with left have "length pre \<le> length pre''" by blast
        with Cons show ?thesis by simp
      qed
    qed
    moreover have "c # cs = (c # pre) @ m @ post" using cs by simp
    ultimately show ?thesis using ml mh by blast
  qed
qed

lemma takeWhile_all: "list_all P a \<Longrightarrow> takeWhile P (a @ post) = a @ takeWhile P post"
  by (induction a) auto

lemma re_search_mailto:
  assumes "re_search mailto_re s = Some m"
  shows "\<exists>pre a post. s = pre @ ''mailto:'' @ a @ post \<and> m = ''mailto:'' @ a \<and> a \<noteq> []
           \<and> list_all mailto_addr_char a \<and> (post = [] \<or> \<not> mailto_addr_char (hd post))
           \<and> (\<forall>pre' m' post'. s = pre' @ m' @ post' \<and> m' \<in> lang mailto_re
                 \<longrightarrow> length pre \<le> length pre')"
proof -
  from re_search_Some [OF assms] obtain pre post where s: "s = pre @ m @ post"
    and ml: "m \<in> lang mailto_re"
    and mh: "match_here mailto_re (m @ post) = Some (length m)"
    and left: "\<forall>pre' m' post'. s = pre' @ m' @ post' \<and> m' \<in> lang mailto_re \<longrightarrow> length pre \<le> length pre'"
    by blast
  from ml obtain a where m: "m = ''mailto:'' @ a" and a: "a \<noteq> []" "list_all mailto_addr_char a"
    unfolding lang_mailto by blast
  have "match_here mailto_re (''mailto:'' @ a @ post) =
          Some (7 + length (a @ takeWhile mailto_addr_char post))"
    using a by (cases a) (simp_all add: match_here_mailto takeWhile_all)
  moreover have "match_here mailto_re (''mailto:'' @ a @ post) = Some (7 + length a)"
    using mh m by simp
  ultimately have "takeWhile mailto_addr_char post = []"
    by simp
  then have post: "post = [] \<or> \<not> mailto_addr_char (hd post)"
    by (cases post) (auto split: if_splits)
  have "s = pre @ ''mailto:'' @ a @ post" using s m by simp
  with m a post left show ?thesis by blast
qed

lemma extract_email_unfold:
  "extract_email raw =
     (case re_search mailto_re (py_strip raw) of
        Some m \<Rightarrow> Some (py_lower (drop 7 m))
      | None \<Rightarrow> map_option py_lower (re_search email_re (py_strip raw)))"
proof (cases "raw = []")
  case True
  have "py_strip [] = []" by (simp add: py_strip_def)
  moreover have "re_search mailto_re [] = None" by (simp add: match_here_mailto)
  moreover have "re_search email_re [] = None" by (simp add: email_re_def)
  ultimately show ?thesis using True by (simp add: extract_email_def)
next
  case False
  show ?thesis
  proof (cases "re_search mailto_re (py_strip raw)")
    case (Some m)
    from re_search_mailto [OF Some] obtain a where m: "m = ''mailto:'' @ a" and a: "a \<noteq> []" "list_all mailto_addr_char a"
      by blast
    have "\<not> py_isspace (hd a)" "\<not> py_isspace (last a)"
      using a by (auto simp: list_all_iff mailto_addr_not_space)
    with a have "py_strip a = a" by (simp add: py_strip_id)
    with m Some False show ?thesis by (simp add: extract_email_def)
  next
    case None
    show ?thesis
    proof (cases "re_search email_re (py_strip raw)")
      case None': None
      with None False show ?thesis by (simp add: extract_email_def)
    next
      case (Some m)
      from re_search_Some [OF Some] have "m \<in> lang email_re" by blast
      then obtain a d t where m: "m = a @ ''@'' @ d @ ''.'' @ t" and a: "a \<noteq> []" "list_all local_char a"
        and t: "t \<noteq> []" "list_all re_word t"
        unfolding lang_email by blast
      have "\<not> py_isspace (hd m)" using m a by (cases a) (auto simp: local_not_space)
      moreover have "\<not> py_isspace (last m)" using m t by (auto simp: list_all_iff re_word_not_space)
      moreover have "m \<noteq> []" using m a by simp
      ultimately have "py_strip m = m" by (simp add: py_strip_id)
      with Some None False show ?thesis by (simp add: extract_email_def)
    qed
  qed
qed

lemma occurs_in_iff: "occurs_in p s \<longleftrightarrow> re_search p s \<noteq> None"
  unfolding occurs_in_def re_search_None by simp

lemma extract_email_Some:
  assumes "extract_email raw = Some e"
  shows "e \<noteq> [] \<and> py_lower e = e \<and> py_strip e = e"
proof -
  have "\<exists>x. e = py_lower x \<and> x \<noteq> [] \<and> \<not> py_isspace (hd x) \<and> \<not> py_isspace (last x)"
  proof (cases "re_search mailto_re (py_strip raw)")
    case (Some m)
    from re_search_mailto [OF Some] obtain a where m: "m = ''mailto:'' @ a" and a: "a \<noteq> []" "list_all mailto_addr_char a"
      by blast
    have "\<not> py_isspace (hd a)" "\<not> py_isspace (last a)"
      using a by (auto simp: list_all_iff mailto_addr_not_space)
    moreover have "e = py_lower a" using assms Some m by (simp add: extract_email_unfold)
    ultimately show ?thesis using a by blast
  next
    case None
    with assms obtain m where Some: "re_search email_re (py_strip raw) = Some m" and e: "e = py_lower m"
      by (auto simp: extract_email_unfold)
    from re_search_Some [OF Some] have "m \<in> lang email_re" by blast
    then obtain a d t where m: "m = a @ ''@'' @ d @ ''.'' @ t" and a: "a \<noteq> []" "list_all local_char a"
      and t: "t \<noteq> []" "list_all re_word t"
      unfolding lang_email by blast
    have "\<not> py_isspace (hd m)" using m a by (cases a) (auto simp: local_not_space)
    moreover have "\<not> py_isspace (last m)" using m t by (auto simp: list_all_iff re_word_not_space)
    moreover have "m \<noteq> []" using m a by simp
    ultimately show ?thesis using e by blast
  qed
  then obtain x where e: "e = py_lower x" and x: "x \<noteq> []" "\<not> py_isspace (hd x)" "\<not> py_isspace (last x)"
    by blast
  have 1: "e \<noteq> []" using e x by (simp add: py_lower_def)
  have 2: "py_lower e = e" using e by (simp add: py_lower_idem)
  have "hd e = py_lower_char (hd x)" "last e = py_lower_char (last x)"
    using e x by (simp_all add: py_lower_def hd_map last_map)
  then have "\<not> py_isspace (hd e)" "\<not> py_isspace (last e)"
    using x by (simp_all add: py_isspace_lower)
  with 1 have 3: "py_strip e = e" by (simp add: py_strip_id)
  from 1 2 3 show ?thesis by blast
qed

text \<open>
  C5. \<open>extract_email\<close> first looks for the mail-link pattern in the trimmed cell text:
  if \<open>mailto:\<close> followed by an address occurs, the result is the address after the
  leftmost such occurrence, taken up to the next white space, double quote, comma or
  the end of the text, in lower case. Otherwise, if the generic email pattern occurs
  anywhere, the result is its leftmost match in lower case. If neither occurs, there is
  no match. Every result is lower-cased and trimmed. The formula
  \<open>=HYPERLINK("mailto:a@b.com","a@b.com")\<close> and the text \<open>A@B.COM\<close> both give
  \<open>a@b.com\<close>, and \<open>call me\<close> gives no match.
\<close>

theorem extract_email_normalization:
  "(occurs_in mailto_re (py_strip raw) \<longrightarrow>
      (\<exists>pre a post. py_strip raw = pre @ ''mailto:'' @ a @ post \<and> a \<noteq> []
          \<and> list_all mailto_addr_char a \<and> (post = [] \<or> \<not> mailto_addr_char (hd post))
          \<and> (\<forall>pre' m' post'. py_strip raw = pre' @ m' @ post' \<and> m' \<in> lang mailto_re
                \<longrightarrow> length pre \<le> length pre')
          \<and> extract_email raw = Some (py_lower a)))
   \<and> (\<not> occurs_in mailto_re (py_strip raw) \<and> occurs_in email_re (py_strip raw) \<longrightarrow>
      (\<exists>pre m post. py_strip raw = pre @ m @ post \<and> m \<in> lang email_re
          \<and> (\<forall>pre' m' post'. py_strip raw = pre' @ m' @ post' \<and> m' \<in> lang email_re
                \<longrightarrow> length pre \<le> length pre')
          \<and> extract_email raw = Some (py_lower m)))
   \<and> (\<not> occurs_in mailto_re (py_strip raw) \<and> \<not> occurs_in email_re (py_strip raw) \<longrightarrow>
      extract_email raw = None)
   \<and> (\<forall>e. extract_email raw = Some e \<longrightarrow> py_lower e = e \<and> py_strip e = e)
   \<and> extract_email hyperlink_cell = Some ''a@b.com''
   \<and> extract_email ''A@B.COM'' = Some ''a@b.com''
   \<and> extract_email ''call me'' = None"
proof -
  have 1: "occurs_in mailto_re (py_strip raw) \<longrightarrow>
      (\<exists>pre a post. py_strip raw = pre @ ''mailto:'' @ a @ post \<and> a \<noteq> []
          \<and> list_all mailto_addr_char a \<and> (post = [] \<or> \<not> mailto_addr_char (hd post))
          \<and> (\<forall>pre' m' post'. py_strip raw = pre' @ m' @ post' \<and> m' \<in> lang mailto_re
                \<longrightarrow> length pre \<le> length pre')
          \<and> extract_email raw = Some (py_lower a))"
  proof
    assume "occurs_in mailto_re (py_strip raw)"
    then obtain m where m: "re_search mailto_re (py_strip raw) = Some m"
      by (auto simp: occurs_in_iff)
    from re_search_mailto [OF m] obtain pre a post where
      f: "py_strip raw = pre @ ''mailto:'' @ a @ post" "m = ''mailto:'' @ a" "a \<noteq> []"
         "list_all mailto_addr_char a" "post = [] \<or> \<not> mailto_addr_char (hd post)"
         "\<forall>pre' m' post'. py_strip raw = pre' @ m' @ post' \<and> m' \<in> lang mailto_re
                \<longrightarrow> length pre \<le> length pre'"
      by blast
    have "extract_email raw = Some (py_lower a)"
      using m f(2) by (simp add: extract_email_unfold)
    then show "\<exists>pre a post. py_strip raw = pre @ ''mailto:'' @ a @ post \<and> a \<noteq> []
          \<and> list_all mailto_addr_char a \<and> (post = [] \<or> \<not> mailto_addr_char (hd post))
          \<and> (\<forall>pre' m' post'. py_strip raw = pre' @ m' @ post' \<and> m' \<in> lang mailto_re
                \<longrightarrow> length pre \<le> length pre')
          \<and> extract_email raw = Some (py_lower a)"
      by (rule_tac x = pre in exI, rule_tac x = a in exI, rule_tac x = post in exI)
         (intro conjI f(1) f(3) f(4) f(5) f(6))
  qed
  have 2: "\<not> occurs_in mailto_re (py_strip raw) \<and> occurs_in email_re (py_strip raw) \<longrightarrow>
      (\<exists>pre m post. py_strip raw = pre @ m @ post \<and> m \<in> lang email_re
          \<and> (\<forall>pre' m' post'. py_strip raw = pre' @ m' @ post' \<and> m' \<in> lang email_re
                \<longrightarrow> length pre \<le> length pre')
          \<and> extract_email raw = Some (py_lower m))"
  proof
    assume h: "\<not> occurs_in mailto_re (py_strip raw) \<and> occurs_in email_re (py_strip raw)"
    then have n: "re_search mailto_re (py_strip raw) = None" by (simp add: occurs_in_iff)
    from h obtain m where m: "re_search email_re (py_strip raw) = Some m"
      by (auto simp: occurs_in_iff)
    have "extract_email raw = Some (py_lower m)"
      using n m by (simp add: extract_email_unfold)
    moreover from re_search_Some [OF m] obtain pre post where
      g: "py_strip raw = pre @ m @ post" "m \<in> lang email_re"
         "\<forall>pre' m' post'. py_strip raw = pre' @ m' @ post' \<and> m' \<in> lang email_re
                \<longrightarrow> length pre \<le> length pre'"
      by blast
    ultimately
    show "\<exists>pre m post. py_strip raw = pre @ m @ post \<and> m \<in> lang email_re
          \<and> (\<forall>pre' m' post'. py_strip raw = pre' @ m' @ post' \<and> m' \<in> lang email_re
                \<longrightarrow> length pre \<le> length pre')
          \<and> extract_email raw = Some (py_lower m)"
      by (rule_tac x = pre in exI, rule_tac x = m in exI, rule_tac x = post in exI)
         (intro conjI g)
  qed
  have 3: "\<not> occurs_in mailto_re (py_strip raw) \<and> \<not> occurs_in email_re (py_strip raw) \<longrightarrow>
      extract_email raw = None"
    by (simp add: occurs_in_iff extract_email_unfold)
  have 4: "\<forall>e. extract_email raw = Some e \<longrightarrow> py_lower e = e \<and> py_strip e = e"
    using extract_email_Some by blast
  have 5: "extract_email hyperlink_cell = Some ''a@b.com''"
    by code_simp
  have 6: "extract_email ''A@B.COM'' = Some ''a@b.com''"
    by code_simp
  have 7: "extract_email ''call me'' = None"
    by code_simp
  show ?thesis
    by (rule conjI [OF 1 conjI [OF 2 conjI [OF 3 conjI [OF 4 conjI [OF 5 conjI [OF 6 7]]]]]])
qed

theorem extract_email_normalization_witness:
  "occurs_in mailto_re (py_strip hyperlink_cell)
   \<and> (\<exists>pre a post. py_strip hyperlink_cell = pre @ ''mailto:'' @ a @ post \<and> a \<noteq> []
          \<and> list_all mailto_addr_char a \<and> (post = [] \<or> \<not> mailto_addr_char (hd post))
          \<and> (\<forall>pre' m' post'. py_strip hyperlink_cell = pre' @ m' @ post' \<and> m' \<in> lang mailto_re
                \<longrightarrow> length pre \<le> length pre')
          \<and> extract_email hyperlink_cell = Some (py_lower a))
   \<and> \<not> occurs_in mailto_re (py_strip ''A@B.COM'') \<and> occurs_in email_re (py_strip ''A@B.COM'')
   \<and> (\<exists>pre m post. py_strip ''A@B.COM'' = pre @ m @ post \<and> m \<in> lang email_re
          \<and> (\<forall>pre' m' post'. py_strip ''A@B.COM'' = pre' @ m' @ post' \<and> m' \<in> lang email_re
                \<longrightarrow> length pre \<le> length pre')
          \<and> extract_email ''A@B.COM'' = Some (py_lower m))
   \<and> \<not> occurs_in mailto_re (py_strip ''call me'') \<and> \<not> occurs_in email_re (py_strip ''call me'')
   \<and> extract_email ''call me'' = None
   \<and> extract_email ''A@B.COM'' = Some ''a@b.com''
   \<and> py_lower ''a@b.com'' = ''a@b.com'' \<and> py_strip ''a@b.com'' = ''a@b.com''"
proof -
  note t = extract_email_normalization
  have h1: "occurs_in mailto_re (py_strip hyperlink_cell)"
    unfolding occurs_in_iff by code_simp
  note c1 = t [of hyperlink_cell, THEN conjunct1, THEN mp, OF h1]
  have h2a: "\<not> occurs_in mailto_re (py_strip ''A@B.COM'')"
    unfolding occurs_in_iff by code_simp
  have h2b: "occurs_in email_re (py_strip ''A@B.COM'')"
    unfolding occurs_in_iff by code_simp
  note c2 = t [of "''A@B.COM''", THEN conjunct2, THEN conjunct1, THEN mp, OF conjI [OF h2a h2b]]
  have h3a: "\<not> occurs_in mailto_re (py_strip ''call me'')"
    unfolding occurs_in_iff by code_simp
  have h3b: "\<not> occurs_in email_re (py_strip ''call me'')"
    unfolding occurs_in_iff by code_simp
  note c3 = t [of "''call me''", THEN conjunct2, THEN conjunct2, THEN conjunct1, THEN mp,
      OF conjI [OF h3a h3b]]
  have h4: "extract_email ''A@B.COM'' = Some ''a@b.com''"
    by code_simp
  note c4 = t [of "''A@B.COM''", THEN conjunct2, THEN conjunct2, THEN conjunct2, THEN conjunct1,
      THEN spec, of "''a@b.com''", THEN mp, OF h4]
  show ?thesis
    by (intro conjI h1 c1 h2a h2b c2 h3a h3b c3 h4 c4 [THEN conjunct1] c4 [THEN conjunct2])
qed

section \<open>The repeating-triplet strategy\<close>

lemma str_truthy_email: "str_truthy (extract_email raw) \<longleftrightarrow> extract_email raw \<noteq> None"
  using extract_email_Some [of raw] by (cases "extract_email raw") (auto simp: str_truthy_def)

lemma sheet4_groups_closed:
  "sheet4_groups co values (1 + 3 * g) =
     concat (map (triplet_contact co values) [g..<(length values - 1) div 3])"
proof (induction "(length values - 1) div 3 - g" arbitrary: g)
  case 0
  then have "\<not> (1 + 3 * g + 2 < length values)" by linarith
  moreover have "[g..<(length values - 1) div 3] = []" using 0 by simp
  ultimately show ?case by (subst sheet4_groups.simps) simp
next
  case (Suc n)
  then have lt: "g < (length values - 1) div 3" by linarith
  then have c: "1 + 3 * g + 2 < length values" by linarith
  have n: "n = (length values - 1) div 3 - Suc g" using Suc.hyps(2) by linarith
  have next_i: "1 + 3 * g + 3 = 1 + 3 * Suc g" by simp
  have i2: "1 + 3 * g + 2 = 3 + 3 * g" by simp
  have upt: "[g..<(length values - 1) div 3] = g # [Suc g..<(length values - 1) div 3]"
    using lt by (simp add: upt_rec)
  have head: "(let name = (if cell_truthy (values ! (1 + 3 * g)) then Some (py_strip (py_str (values ! (1 + 3 * g))))
                    else None);
            email = (if cell_truthy (values ! (3 + 3 * g))
                     then extract_email (py_str (values ! (3 + 3 * g))) else None)
        in (if str_truthy name \<and> str_truthy email
            then [\<lparr>company = co, name = the name, email = the email\<rparr>]
            else [])) = triplet_contact co values g"
    by (auto simp: triplet_contact_def Let_def str_truthy_email) (auto simp: str_truthy_def)
  show ?case
    apply (subst sheet4_groups.simps)
    apply (simp only: c if_True next_i Suc.hyps(1) [OF n] upt list.map concat.simps)
    apply (simp only: i2)
    using head apply (simp add: Let_def)
    done
qed

text \<open>
  C7. The repeating-triplet strategy reads the company from column 0 and then the
  complete groups of three columns (name, phone, email candidate) that start at
  column 1: the contacts of a row are, group by group in order, one contact with the
  row's company for each group that has a non-empty name and a recognisable email,
  and nothing else. The row
  \<open>["Acme", "Jo", "555", "jo@acme.com", "Al", "555", "al@acme.com"]\<close> gives the two
  contacts Jo and Al of Acme, in that order.
\<close>

theorem read_contacts_sheet4_row_groups:
  "(values \<noteq> [] \<longrightarrow>
      read_contacts_sheet4_row values =
        Inr (concat (map (triplet_contact (row_company (values ! 0)) values)
                       [0..<(length values - 1) div 3])))
   \<and> length (triplet_contact co values g) \<le> 1
   \<and> (\<forall>c \<in> set (triplet_contact co values g). company c = co)
   \<and> read_contacts_sheet4_row
         [CStr ''Acme'', CStr ''Jo'', CStr ''555'', CStr ''jo@acme.com'',
          CStr ''Al'', CStr ''555'', CStr ''al@acme.com''] =
       Inr [\<lparr>company = ''Acme'', name = ''Jo'', email = ''jo@acme.com''\<rparr>,
            \<lparr>company = ''Acme'', name = ''Al'', email = ''al@acme.com''\<rparr>]"
proof -
  have 1: "values \<noteq> [] \<longrightarrow>
      read_contacts_sheet4_row values =
        Inr (concat (map (triplet_contact (row_company (values ! 0)) values)
                       [0..<(length values - 1) div 3]))"
    using sheet4_groups_closed [of _ "values" 0]
    by (simp add: read_contacts_sheet4_row_def row_company_def)
  have 2: "length (triplet_contact co values g) \<le> 1"
    by (simp add: triplet_contact_def Let_def)
  have 3: "\<forall>c \<in> set (triplet_contact co values g). company c = co"
    by (simp add: triplet_contact_def Let_def)
  have 4: "read_contacts_sheet4_row
         [CStr ''Acme'', CStr ''Jo'', CStr ''555'', CStr ''jo@acme.com'',
          CStr ''Al'', CStr ''555'', CStr ''al@acme.com''] =
       Inr [\<lparr>company = ''Acme'', name = ''Jo'', email = ''jo@acme.com''\<rparr>,
            \<lparr>company = ''Acme'', name = ''Al'', email = ''al@acme.com''\<rparr>]"
    by code_simp
  show ?thesis
    by (rule conjI [OF 1 conjI [OF 2 conjI [OF 3 4]]])
qed

theorem read_contacts_sheet4_row_groups_witness:
  "[CStr ''Beta'', CStr ''Al'', CInt 555, CStr ''al@beta.com''] \<noteq> []
   \<and> read_contacts_sheet4_row [CStr ''Beta'', CStr ''Al'', CInt 555, CStr ''al@beta.com''] =
       Inr (concat (map (triplet_contact
                           (row_company ([CStr ''Beta'', CStr ''Al'', CInt 555, CStr ''al@beta.com''] ! 0))
                           [CStr ''Beta'', CStr ''Al'', CInt 555, CStr ''al@beta.com''])
                      [0..<(length [CStr ''Beta'', CStr ''Al'', CInt 555, CStr ''al@beta.com''] - 1) div 3]))
   \<and> \<lparr>company = ''Beta'', name = ''Al'', email = ''al@beta.com''\<rparr>
       \<in> set (triplet_contact ''Beta'' [CStr ''Beta'', CStr ''Al'', CInt 555, CStr ''al@beta.com''] 0)
   \<and> company \<lparr>company = ''Beta'', name = ''Al'', email = ''al@beta.com''\<rparr> = ''Beta''"
proof -
  let ?row = "[CStr ''Beta'', CStr ''Al'', CInt 555, CStr ''al@beta.com'']"
  note t = read_contacts_sheet4_row_groups [of ?row "''Beta''" 0]
  have h: "?row \<noteq> []" by simp
  have m: "\<lparr>company = ''Beta'', name = ''Al'', email = ''al@beta.com''\<rparr>
       \<in> set (triplet_contact ''Beta'' ?row 0)"
    by code_simp
  note c1 = t [THEN conjunct1, THEN mp, OF h]
  note c3 = t [THEN conjunct2, THEN conjunct2, THEN conjunct1, THEN bspec, OF m]
  show ?thesis
    by (intro conjI h c1 m c3)
qed

section \<open>The scan-and-pair strategy\<close>

lemma scan_step_CNone: "scan_step co (p, out) CNone = (p, out)"
  by (simp add: scan_step_def)

lemma scan_step_email:
  "v \<noteq> CNone \<Longrightarrow> extract_email (py_strip (py_str v)) = Some e \<Longrightarrow>
   scan_step co (p, out) v =
     (None, out @ [\<lparr>company = co,
                     name = (case p of Some n \<Rightarrow> n | None \<Rightarrow> ''Hiring Manager''),
                     email = e\<rparr>])"
  by (simp add: scan_step_def)

lemma scan_step_other:
  "v \<noteq> CNone \<Longrightarrow> extract_email (py_strip (py_str v)) = None \<Longrightarrow>
   scan_step co (p, out) v =
     (if p = None \<and> name_like (py_strip (py_str v)) then Some (py_strip (py_str v)) else p, out)"
  by (simp add: scan_step_def)

lemma sheet2_scan_fold:
  "last_name \<noteq> Some [] \<Longrightarrow>
   out @ sheet2_scan co vals last_name = snd (foldl (scan_step co) (last_name, out) vals)"
proof (induction vals arbitrary: last_name out)
  case Nil
  show ?case by simp
next
  case (Cons v vals)
  show ?case
  proof (cases "v = CNone")
    case True
    with Cons show ?thesis by (simp add: scan_step_CNone)
  next
    case False
    show ?thesis
    proof (cases "extract_email (py_strip (py_str v))")
      case (Some e)
      have t: "str_truthy (extract_email (py_strip (py_str v)))"
        using str_truthy_email [of "py_strip (py_str v)"] Some by simp
      have nm: "(if str_truthy last_name then the last_name else ''Hiring Manager'') =
                (case last_name of Some n \<Rightarrow> n | None \<Rightarrow> ''Hiring Manager'')"
        using Cons.prems by (cases last_name) (auto simp: str_truthy_def)
      let ?c = "\<lparr>company = co,
                  name = (case last_name of Some n \<Rightarrow> n | None \<Rightarrow> ''Hiring Manager''),
                  email = e\<rparr>"
      have "(out @ [?c]) @ sheet2_scan co vals None =
            snd (foldl (scan_step co) (None, out @ [?c]) vals)"
        by (rule Cons.IH) simp
      then show ?thesis
        using False Some t nm by (simp add: scan_step_email Let_def)
    next
      case None
      then have t: "\<not> str_truthy (extract_email (py_strip (py_str v)))"
        by (simp add: str_truthy_def)
      have inv: "(if last_name = None then Some (py_strip (py_str v)) else last_name) \<noteq> Some []"
        if "name_like (py_strip (py_str v))"
        using that Cons.prems by (auto simp: name_like_def)
      show ?thesis
      proof (cases "name_like (py_strip (py_str v))")
        case True
        from Cons.IH [OF inv [OF True]] show ?thesis
          using False None t True by (simp add: scan_step_other Let_def)
      next
        case nl: False
        from Cons.IH [OF Cons.prems] show ?thesis
          using False None t nl by (simp add: scan_step_other Let_def)
      qed
    qed
  qed
qed

text \<open>
  C6, as amended. The scan-and-pair strategy takes the company from column 1 (the
  placeholder when that cell is empty) and runs the state machine \<open>scan_step\<close> over
  the cells from column 2 onward, starting with no pending name: a cell whose trimmed
  text normalizes to an email is paired with the pending name, or with
  \<open>Hiring Manager\<close>, and clears the pending name; a cell that does not normalize to an
  email becomes the pending name iff none is pending and its trimmed text is not
  purely numeric, has no \<open>/\<close>, is longer than two characters and has no \<open>@\<close>. The rows
  \<open>["1", "Acme", "Jo Smith", "jo@acme.com"]\<close> and \<open>["1", "Acme", "jo@acme.com"]\<close> give
  the contact of Acme named \<open>Jo Smith\<close>, respectively \<open>Hiring Manager\<close>.
\<close>

theorem read_contacts_sheet2_row_scan:
  "(2 \<le> length values \<longrightarrow>
      read_contacts_sheet2_row values =
        Inr (snd (foldl (scan_step (row_company (values ! 1))) (None, []) (drop 2 values))))
   \<and> (v \<noteq> CNone \<and> extract_email (py_strip (py_str v)) = None \<longrightarrow>
        (fst (scan_step co (None, out) v) = Some (py_strip (py_str v))
           \<longleftrightarrow> name_like (py_strip (py_str v)))
        \<and> fst (scan_step co (Some n, out) v) = Some n
        \<and> snd (scan_step co (pending, out) v) = out)
   \<and> (v \<noteq> CNone \<and> extract_email (py_strip (py_str v)) = Some e \<longrightarrow>
        scan_step co (Some n, out) v = (None, out @ [\<lparr>company = co, name = n, email = e\<rparr>])
        \<and> scan_step co (None, out) v =
            (None, out @ [\<lparr>company = co, name = ''Hiring Manager'', email = e\<rparr>]))
   \<and> read_contacts_sheet2_row [CStr ''1'', CStr ''Acme'', CStr ''Jo Smith'', CStr ''jo@acme.com'']
       = Inr [\<lparr>company = ''Acme'', name = ''Jo Smith'', email = ''jo@acme.com''\<rparr>]
   \<and> read_contacts_sheet2_row [CStr ''1'', CStr ''Acme'', CStr ''jo@acme.com'']
       = Inr [\<lparr>company = ''Acme'', name = ''Hiring Manager'', email = ''jo@acme.com''\<rparr>]"
proof -
  have 1: "2 \<le> length values \<longrightarrow>
      read_contacts_sheet2_row values =
        Inr (snd (foldl (scan_step (row_company (values ! 1))) (None, []) (drop 2 values)))"
  proof -
    have "sheet2_scan c (drop 2 values) None =
          snd (foldl (scan_step c) (None, []) (drop 2 values))" for c
      using sheet2_scan_fold [of None "[]" c "drop 2 values"] by simp
    then show ?thesis
      by (simp add: read_contacts_sheet2_row_def row_company_def)
  qed
  have 2: "v \<noteq> CNone \<and> extract_email (py_strip (py_str v)) = None \<longrightarrow>
        (fst (scan_step co (None, out) v) = Some (py_strip (py_str v))
           \<longleftrightarrow> name_like (py_strip (py_str v)))
        \<and> fst (scan_step co (Some n, out) v) = Some n
        \<and> snd (scan_step co (pending, out) v) = out"
    by (simp add: scan_step_def)
  have 3: "v \<noteq> CNone \<and> extract_email (py_strip (py_str v)) = Some e \<longrightarrow>
        scan_step co (Some n, out) v = (None, out @ [\<lparr>company = co, name = n, email = e\<rparr>])
        \<and> scan_step co (None, out) v =
            (None, out @ [\<lparr>company = co, name = ''Hiring Manager'', email = e\<rparr>])"
    by (simp add: scan_step_def)
  have 4: "read_contacts_sheet2_row [CStr ''1'', CStr ''Acme'', CStr ''Jo Smith'', CStr ''jo@acme.com'']
       = Inr [\<lparr>company = ''Acme'', name = ''Jo Smith'', email = ''jo@acme.com''\<rparr>]"
    by code_simp
  have 5: "read_contacts_sheet2_row [CStr ''1'', CStr ''Acme'', CStr ''jo@acme.com'']
       = Inr [\<lparr>company = ''Acme'', name = ''Hiring Manager'', email = ''jo@acme.com''\<rparr>]"
    by code_simp
  show ?thesis
    by (rule conjI [OF 1 conjI [OF 2 conjI [OF 3 conjI [OF 4 5]]]])
qed

theorem read_contacts_sheet2_row_scan_counterexample:
  "name_like (py_strip (py_str (CStr ''mailto:bob'')))
   \<and> read_contacts_sheet2_row [CInt 1, CStr ''Acme'', CStr ''mailto:bob'', CStr ''x@y.org'']
       = Inr [\<lparr>company = ''Acme'', name = ''Hiring Manager'', email = ''bob''\<rparr>,
              \<lparr>company = ''Acme'', name = ''Hiring Manager'', email = ''x@y.org''\<rparr>]"
  by code_simp

theorem read_contacts_sheet2_row_scan_witness:
  "2 \<le> length scan_row_example
   \<and> read_contacts_sheet2_row scan_row_example =
       Inr (snd (foldl (scan_step (row_company (scan_row_example ! 1))) (None, [])
                   (drop 2 scan_row_example)))
   \<and> CStr ''Jo Smith'' \<noteq> CNone
   \<and> extract_email (py_strip (py_str (CStr ''Jo Smith''))) = None
   \<and> name_like (py_strip (py_str (CStr ''Jo Smith'')))
   \<and> fst (scan_step ''Acme'' (None, []) (CStr ''Jo Smith'')) =
       Some (py_strip (py_str (CStr ''Jo Smith'')))
   \<and> fst (scan_step ''Acme'' (Some ''Jo Smith'', []) (CStr ''Director'')) = Some ''Jo Smith''
   \<and> CStr ''jo@acme.com'' \<noteq> CNone
   \<and> extract_email (py_strip (py_str (CStr ''jo@acme.com''))) = Some ''jo@acme.com''
   \<and> scan_step ''Acme'' (Some ''Jo Smith'', []) (CStr ''jo@acme.com'') =
       (None, [] @ [\<lparr>company = ''Acme'', name = ''Jo Smith'', email = ''jo@acme.com''\<rparr>])"
proof -
  note t = read_contacts_sheet2_row_scan
  have h1: "2 \<le> length scan_row_example"
    by (simp add: scan_row_example_def)
  note c1 = t [of scan_row_example, THEN conjunct1, THEN mp, OF h1]
  have h2a: "CStr ''Jo Smith'' \<noteq> CNone" by simp
  have h2b: "extract_email (py_strip (py_str (CStr ''Jo Smith''))) = None" by code_simp
  have nl: "name_like (py_strip (py_str (CStr ''Jo Smith'')))" by code_simp
  note c2 = t [of _ "CStr ''Jo Smith''" "''Acme''" "[]" "''Jo Smith''", THEN conjunct2, THEN conjunct1, THEN mp,
      OF conjI [OF h2a h2b]]
  have c2a: "fst (scan_step ''Acme'' (None, []) (CStr ''Jo Smith'')) =
       Some (py_strip (py_str (CStr ''Jo Smith'')))"
    using c2 [THEN conjunct1] nl by simp
  have h2c: "CStr ''Director'' \<noteq> CNone" by simp
  have h2d: "extract_email (py_strip (py_str (CStr ''Director''))) = None" by code_simp
  note c2' = t [of _ "CStr ''Director''" "''Acme''" "[]" "''Jo Smith''", THEN conjunct2, THEN conjunct1, THEN mp,
      OF conjI [OF h2c h2d], THEN conjunct2, THEN conjunct1]
  have h3a: "CStr ''jo@acme.com'' \<noteq> CNone" by simp
  have h3b: "extract_email (py_strip (py_str (CStr ''jo@acme.com''))) = Some ''jo@acme.com''"
    by code_simp
  note c3 = t [of _ "CStr ''jo@acme.com''" "''Acme''" "[]" "''Jo Smith''" _ "''jo@acme.com''",
      THEN conjunct2, THEN conjunct2, THEN conjunct1, THEN mp, OF conjI [OF h3a h3b], THEN conjunct1]
  show ?thesis
    by (intro conjI h1 c1 h2a h2b nl c2a c2' h3a h3b c3)
qed

section \<open>Contacts and recognised emails\<close>




















section \<open>The arguments of \<open>bulk_email.py\<close>\<close>

lemma send_cold_email_argv [simp]:
  "send_cold_email (w\<lparr>argv := a\<rparr>) k c = send_cold_email w k c"
  by (simp add: send_cold_email_def)

lemma send_loop_argv [simp]:
  "send_loop (w\<lparr>argv := a\<rparr>) n i cs counters = send_loop w n i cs counters"
  by (induction w n i cs counters rule: send_loop.induct) simp_all

lemma smtp_session_argv [simp]: "smtp_session (w\<lparr>argv := a\<rparr>) = smtp_session w"
  by (simp add: smtp_session_def)

lemma py_input_argv [simp]: "py_input (w\<lparr>argv := a\<rparr>) prompt = py_input w prompt"
  by (simp add: py_input_def)

lemma read_sheet_argv [simp]:
  "read_sheet (w\<lparr>argv := a\<rparr>) sheet_index min_row body = read_sheet w sheet_index min_row body"
  by (simp add: read_sheet_def split: option.splits)

lemma bulk_test_mode_argv [simp]:
  "bulk_test_mode (w\<lparr>argv := a\<rparr>) = bulk_test_mode w"
  by (simp add: bulk_test_mode_def cong: if_cong)

lemma bulk_full_mode_argv [simp]:
  "bulk_full_mode (w\<lparr>argv := a\<rparr>) = bulk_full_mode w"
  by (simp add: bulk_full_mode_def read_contacts_sheet2_def cong: if_cong)

text \<open>
  C1. The code at the input of the claim: \<open>main\<close> computes \<open>use_sheet4\<close> and never reads
  it. A run with \<open>--sheet4\<close> among the arguments is the run without it, and in full
  mode the contacts always come from \<open>read_contacts_sheet2(sheet_index=4)\<close>: with the
  sample workbook the run sends to Jo Smith of Acme, found by scan-and-pair on the
  worksheet at index 4, and not to the contact that \<open>read_contacts_sheet4\<close> reads.
\<close>

theorem bulk_main_ignores_sheet4:
  "bulk_main (w\<lparr>argv := args @ [''--sheet4'']\<rparr>) = bulk_main (w\<lparr>argv := args\<rparr>)
   \<and> bulk_main (bulk_world\<lparr>argv := [''bulk_email.py'', ''--sheet4'']\<rparr>) =
       ([Prompt ''Send all emails? (y/n): '', SmtpConnect,
         SendCold \<lparr>company = ''Acme'', name = ''Jo Smith'', email = ''jo@acme.com''\<rparr>],
        Inr ())
   \<and> read_contacts_sheet4 bulk_world =
       ([], Inr [\<lparr>company = ''Beta'', name = ''Al'', email = ''al@beta.com''\<rparr>])"
proof -
  have 1: "bulk_main (w\<lparr>argv := args @ [''--sheet4'']\<rparr>) = bulk_main (w\<lparr>argv := args\<rparr>)"
    by (simp add: bulk_main_def)
  have 2: "bulk_main (bulk_world\<lparr>argv := [''bulk_email.py'', ''--sheet4'']\<rparr>) =
       ([Prompt ''Send all emails? (y/n): '', SmtpConnect,
         SendCold \<lparr>company = ''Acme'', name = ''Jo Smith'', email = ''jo@acme.com''\<rparr>],
        Inr ())"
    by code_simp
  have 3: "read_contacts_sheet4 bulk_world =
       ([], Inr [\<lparr>company = ''Beta'', name = ''Al'', email = ''al@beta.com''\<rparr>])"
    by code_simp
  show ?thesis
    by (rule conjI [OF 1 conjI [OF 2 3]])
qed

section \<open>Scraping and the null reply\<close>

lemma fst_and_then:
  "fst (and_then m f) = fst m @ (case snd m of Inl a \<Rightarrow> [] | Inr x \<Rightarrow> fst (f x))"
  by (cases m) (auto simp: and_then_def split: sum.splits prod.splits)

lemma snd_and_then:
  "snd (and_then m f) = (case snd m of Inl a \<Rightarrow> Inl a | Inr x \<Rightarrow> snd (f x))"
  by (cases m) (auto simp: and_then_def split: sum.splits prod.splits)

lemma and_then_eq:
  "and_then m f =
     (case snd m of Inl a \<Rightarrow> (fst m, Inl a) | Inr x \<Rightarrow> (fst m @ fst (f x), snd (f x)))"
  by (cases m) (auto simp: and_then_def split: sum.splits prod.splits)

lemma scrape_loop_events:
  "list_all (\<lambda>ev. is_fetch ev \<or> is_stderr ev) (fst (scrape_loop w urls all_text))"
proof (induction urls arbitrary: all_text)
  case Nil
  show ?case by (simp add: ret_def)
next
  case (Cons url urls)
  show ?case
    using Cons.IH by (auto simp: raise_def split: sum.splits)
qed

lemma scrape_events:
  "list_all (\<lambda>ev. is_fetch ev \<or> is_stderr ev) (fst (scrape_unravel_profiles w))"
  using scrape_loop_events [of w UNRAVEL_URLS "[]"]
  by (auto simp: scrape_unravel_profiles_def fst_and_then sys_exit_def ret_def split: sum.splits)

lemma filter_none: "list_all (\<lambda>ev. \<not> P ev) tr \<Longrightarrow> filter P tr = []"
  by (induction tr) auto

lemma scrape_no_smtp: "filter is_smtp (fst (scrape_unravel_profiles w)) = []"
proof (rule filter_none)
  have "(is_fetch ev \<or> is_stderr ev) \<longrightarrow> \<not> is_smtp ev" for ev by (cases ev) auto
  with scrape_events [of w] show "list_all (\<lambda>ev. \<not> is_smtp ev) (fst (scrape_unravel_profiles w))"
    by (auto simp: list_all_iff)
qed

lemma scrape_no_prompt: "filter is_prompt (fst (scrape_unravel_profiles w)) = []"
proof (rule filter_none)
  have "(is_fetch ev \<or> is_stderr ev) \<longrightarrow> \<not> is_prompt ev" for ev by (cases ev) auto
  with scrape_events [of w] show "list_all (\<lambda>ev. \<not> is_prompt ev) (fst (scrape_unravel_profiles w))"
    by (auto simp: list_all_iff)
qed

lemma scrape_network: "list_all is_fetch (network_events (fst (scrape_unravel_profiles w)))"
proof -
  have "(is_fetch ev \<or> is_stderr ev) \<and> is_network ev \<longrightarrow> is_fetch ev" for ev by (cases ev) auto
  with scrape_events [of w] show ?thesis
    by (auto simp: list_all_iff network_events_def)
qed

text \<open>
  C8. When the pages were scraped, the API key is set and the reply of the model
  parses to the object \<open>{"founder_name": null, "email": null}\<close>, the extractor returns
  that object, \<open>get\<close> gives \<open>None\<close> for both fields, and \<open>send_email.py\<close> writes
  \<open>Error: Could not extract founder info.\<close> and exits with code 1: the operator is not
  prompted and no SMTP session is opened.
\<close>

theorem null_founder_reply_halts:
  "snd (scrape_unravel_profiles w) = Inr profiles
   \<and> str_truthy (getenv w ''GROQ_API_KEY'')
   \<and> chat_completion w (build_user_prompt profiles) = Inr (Some raw) \<and> raw \<noteq> []
   \<and> json_loads w raw = Inr (JObj [(''founder_name'', JNull), (''email'', JNull)])
   \<longrightarrow>
     extract_founder_info w profiles =
       ([ChatCompletion (build_user_prompt profiles)],
        Inr (JObj [(''founder_name'', JNull), (''email'', JNull)]))
     \<and> dict_get (JObj [(''founder_name'', JNull), (''email'', JNull)]) ''founder_name''
         = ([], Inr JNull)
     \<and> dict_get (JObj [(''founder_name'', JNull), (''email'', JNull)]) ''email''
         = ([], Inr JNull)
     \<and> send_email_main w =
         (fst (scrape_unravel_profiles w)
          @ [ChatCompletion (build_user_prompt profiles),
             Stderr ''Error: Could not extract founder info.''],
          Inl (SysExit 1))
     \<and> exit_code (snd (send_email_main w)) = 1
     \<and> filter is_smtp (fst (send_email_main w)) = []
     \<and> filter is_prompt (fst (send_email_main w)) = []"
proof
  let ?obj = "JObj [(''founder_name'', JNull), (''email'', JNull)]"
  assume h: "snd (scrape_unravel_profiles w) = Inr profiles
   \<and> str_truthy (getenv w ''GROQ_API_KEY'')
   \<and> chat_completion w (build_user_prompt profiles) = Inr (Some raw) \<and> raw \<noteq> []
   \<and> json_loads w raw = Inr ?obj"
  then have scr: "scrape_unravel_profiles w = (fst (scrape_unravel_profiles w), Inr profiles)"
    by (metis prod.collapse)
  have ext: "extract_founder_info w profiles =
       ([ChatCompletion (build_user_prompt profiles)], Inr ?obj)"
    using h by (simp add: extract_founder_info_def str_truthy_def ret_def)
  have g1: "dict_get ?obj ''founder_name'' = ([], Inr JNull)"
    by (simp add: ret_def)
  have g2: "dict_get ?obj ''email'' = ([], Inr JNull)"
    by (simp add: ret_def)
  have main: "send_email_main w =
         (fst (scrape_unravel_profiles w)
          @ [ChatCompletion (build_user_prompt profiles),
             Stderr ''Error: Could not extract founder info.''],
          Inl (SysExit 1))"
    unfolding send_email_main_def
    by (simp add: and_then_Inr [OF scr] and_then_Inr [OF ext] and_then_Inr [OF g1]
          and_then_Inr [OF g2] sys_exit_def)
  have ec: "exit_code (snd (send_email_main w)) = 1"
    by (simp add: main)
  have ns: "filter is_smtp (fst (send_email_main w)) = []"
    by (simp add: main scrape_no_smtp)
  have np: "filter is_prompt (fst (send_email_main w)) = []"
    by (simp add: main scrape_no_prompt)
  show "extract_founder_info w profiles =
       ([ChatCompletion (build_user_prompt profiles)], Inr ?obj)
     \<and> dict_get ?obj ''founder_name'' = ([], Inr JNull)
     \<and> dict_get ?obj ''email'' = ([], Inr JNull)
     \<and> send_email_main w =
         (fst (scrape_unravel_profiles w)
          @ [ChatCompletion (build_user_prompt profiles),
             Stderr ''Error: Could not extract founder info.''],
          Inl (SysExit 1))
     \<and> exit_code (snd (send_email_main w)) = 1
     \<and> filter is_smtp (fst (send_email_main w)) = []
     \<and> filter is_prompt (fst (send_email_main w)) = []"
    by (intro conjI ext g1 g2 main ec ns np)
qed

theorem null_founder_reply_halts_witness:
  "snd (scrape_unravel_profiles null_world) = Inr null_profiles
   \<and> str_truthy (getenv null_world ''GROQ_API_KEY'')
   \<and> chat_completion null_world (build_user_prompt null_profiles) = Inr (Some null_reply)
   \<and> null_reply \<noteq> []
   \<and> json_loads null_world null_reply = Inr (JObj [(''founder_name'', JNull), (''email'', JNull)])
   \<and> exit_code (snd (send_email_main null_world)) = 1
   \<and> filter is_smtp (fst (send_email_main null_world)) = []
   \<and> filter is_prompt (fst (send_email_main null_world)) = []"
proof -
  have h1: "snd (scrape_unravel_profiles null_world) = Inr null_profiles" by code_simp
  have h2: "str_truthy (getenv null_world ''GROQ_API_KEY'')" by code_simp
  have h3: "chat_completion null_world (build_user_prompt null_profiles) = Inr (Some null_reply)"
    by code_simp
  have h4: "null_reply \<noteq> []" by code_simp
  have h5: "json_loads null_world null_reply = Inr (JObj [(''founder_name'', JNull), (''email'', JNull)])"
    by code_simp
  note c = null_founder_reply_halts [of null_world null_profiles null_reply, THEN mp,
      OF conjI [OF h1 conjI [OF h2 conjI [OF h3 conjI [OF h4 h5]]]]]
  show ?thesis
    by (intro conjI h1 h2 h3 h4 h5
          c [THEN conjunct2, THEN conjunct2, THEN conjunct2, THEN conjunct2, THEN conjunct1]
          c [THEN conjunct2, THEN conjunct2, THEN conjunct2, THEN conjunct2, THEN conjunct2, THEN conjunct1]
          c [THEN conjunct2, THEN conjunct2, THEN conjunct2, THEN conjunct2, THEN conjunct2, THEN conjunct2])
qed

section \<open>Exit codes\<close>

lemma exit_code_and_then:
  "exit_code (snd (and_then m f)) =
     (case snd m of Inl a \<Rightarrow> abort_code a | Inr x \<Rightarrow> exit_code (snd (f x)))"
  by (simp add: snd_and_then split: sum.splits)

lemma snd_py_input:
  "snd (py_input w prompt) =
     (case input_line w of
        None \<Rightarrow> Inl (Raised (Exn EOFError ''EOF when reading a line''))
      | Some line \<Rightarrow> Inr line)"
  by (simp add: py_input_def raise_def ret_def split: option.splits)

lemma snd_smtp_session:
  "snd (smtp_session w) = (case smtp_login w of None \<Rightarrow> Inr () | Some exc \<Rightarrow> Inl (Raised exc))"
  by (simp add: smtp_session_def raise_def ret_def split: option.splits)

lemma snd_send_cold_email: "snd (send_cold_email w k c) = Inr (send_result w k = None)"
  by (simp add: send_cold_email_eq)

lemma snd_send_loop: "returns (snd (send_loop w n i cs (s, f)))"
  by (simp add: send_loop_run)

lemma exit_bulk_test_mode:
  "exit_code (snd (bulk_test_mode w)) =
     (if declined w \<or> (confirmed w \<and> smtp_login w = None) then 0 else 1)"
  by (auto simp: bulk_test_mode_def exit_code_and_then snd_py_input snd_smtp_session
        snd_send_cold_email declined_def confirmed_def sys_exit_def ret_def emit_def Let_def
        split: option.splits sum.splits)

lemma read_sheet_exit:
  "exit_code (snd (read_sheet w sheet_index min_row body)) =
     (if returns (snd (read_sheet w sheet_index min_row body)) then 0 else 1)"
  by (auto simp: read_sheet_def sys_exit_def raise_def ret_def split: option.splits sum.splits)

lemma exit_bulk_full_mode:
  "exit_code (snd (bulk_full_mode w)) =
     (if returns (snd (read_contacts_sheet2 w 4))
         \<and> (declined w \<or> (confirmed w \<and> smtp_login w = None))
      then 0 else 1)"
proof (cases "snd (read_contacts_sheet2 w 4)")
  case (Inl a)
  then have "abort_code a = 1"
    using read_sheet_exit [of w 4 2 read_contacts_sheet2_row]
    by (simp add: read_contacts_sheet2_def)
  with Inl show ?thesis
    by (simp add: bulk_full_mode_def exit_code_and_then)
next
  case (Inr contacts)
  have loop: "exit_code (snd (and_then (send_loop w (length contacts) 1 contacts (0, 0))
                                 (\<lambda>counters. ret ()))) = 0"
    by (simp add: send_loop_run and_then_Inr [OF refl] ret_def)
  show ?thesis
    using Inr loop
    by (auto simp: bulk_full_mode_def exit_code_and_then snd_py_input snd_smtp_session
          declined_def confirmed_def sys_exit_def Let_def
          split: option.splits sum.splits)
qed

lemma exit_bulk_main:
  "exit_code (snd (bulk_main w)) =
     (if str_truthy (getenv w ''GMAIL_APP_PASSWORD_CODES04'') \<and> resume_exists w
         \<and> (''--test'' \<in> set (argv w) \<or> returns (snd (read_contacts_sheet2 w 4)))
         \<and> (declined w \<or> (confirmed w \<and> smtp_login w = None))
      then 0 else 1)"
  by (simp add: bulk_main_def exit_bulk_test_mode exit_bulk_full_mode sys_exit_def)

lemma exit_send_application_email:
  "exit_code (snd (send_application_email w recipient)) =
     (if str_truthy (getenv w ''GMAIL_APP_PASSWORD'') \<and> resume_exists w
         \<and> smtp_login w = None \<and> send_result w 1 = None
      then 0 else 1)"
  by (auto simp: send_application_email_def smtp_session_def sys_exit_def raise_def ret_def
        and_then_def emit_def Let_def split: option.splits sum.splits prod.splits abort.splits)

lemma scrape_loop_abort:
  "snd (scrape_loop w urls all_text) = Inl a \<Longrightarrow> abort_code a = 1"
proof (induction urls arbitrary: all_text)
  case Nil
  then show ?case by (simp add: ret_def)
next
  case (Cons url urls)
  then show ?case
    by (auto simp: raise_def split: sum.splits if_splits)
qed

lemma scrape_abort:
  "snd (scrape_unravel_profiles w) = Inl a \<Longrightarrow> abort_code a = 1"
  using scrape_loop_abort [of w UNRAVEL_URLS "[]"]
  by (auto simp: scrape_unravel_profiles_def snd_and_then sys_exit_def ret_def
        split: sum.splits if_splits)

lemma extract_abort:
  "snd (extract_founder_info w profiles) = Inl a \<Longrightarrow> abort_code a = 1"
  by (auto simp: extract_founder_info_def sys_exit_def raise_def ret_def Let_def
        split: sum.splits if_splits)

lemma dict_get_abort: "snd (dict_get v k) = Inl a \<Longrightarrow> abort_code a = 1"
  by (cases v) (auto simp: raise_def ret_def)

lemma dict_get_obj: "snd (dict_get v k) = Inr x \<Longrightarrow>
   \<exists>kvs. v = JObj kvs \<and> x = (case map_of kvs k of Some y \<Rightarrow> y | None \<Rightarrow> JNull)"
  by (cases v) (auto simp: raise_def ret_def)

lemma exit_send_email_main:
  "exit_code (snd (send_email_main w)) =
     (if founder_recipient w \<noteq> None
         \<and> (declined w
              \<or> (confirmed w \<and> str_truthy (getenv w ''GMAIL_APP_PASSWORD'') \<and> resume_exists w
                  \<and> smtp_login w = None \<and> send_result w 1 = None))
      then 0 else 1)"
proof (cases "snd (scrape_unravel_profiles w)")
  case (Inl a)
  with scrape_abort [OF Inl] show ?thesis
    by (simp add: send_email_main_def exit_code_and_then founder_recipient_def)
next
  case scr: (Inr profiles)
  show ?thesis
  proof (cases "snd (extract_founder_info w profiles)")
    case (Inl a)
    with extract_abort [OF Inl] scr show ?thesis
      by (simp add: send_email_main_def exit_code_and_then founder_recipient_def)
  next
    case ext: (Inr result)
    show ?thesis
    proof (cases "\<exists>kvs. result = JObj kvs")
      case False
      then obtain exc where "snd (dict_get result ''founder_name'') = Inl (Raised exc)"
        by (cases result) (simp_all add: raise_def)
      moreover have "founder_recipient w = None"
        using False scr ext by (cases result) (simp_all add: founder_recipient_def)
      ultimately show ?thesis
        using scr ext by (simp add: send_email_main_def exit_code_and_then)
    next
      case True
      then obtain kvs where r: "result = JObj kvs" by blast
      show ?thesis
        using scr ext r
        by (auto simp: send_email_main_def exit_code_and_then founder_recipient_def ret_def
              snd_py_input declined_def confirmed_def sys_exit_def Let_def
              exit_send_application_email
              split: option.splits)
    qed
  qed
qed

lemma declined_send_result [simp]: "declined (w\<lparr>send_result := sr\<rparr>) = declined w"
  by (simp add: declined_def)

lemma confirmed_send_result [simp]: "confirmed (w\<lparr>send_result := sr\<rparr>) = confirmed w"
  by (simp add: confirmed_def)

lemma read_sheet_send_result [simp]:
  "read_sheet (w\<lparr>send_result := sr\<rparr>) sheet_index min_row body =
   read_sheet w sheet_index min_row body"
  by (simp add: read_sheet_def split: option.splits)

text \<open>
  C9, as amended. The exit code of either script is 0 or 1. For \<open>bulk_email.py\<close> it is
  0 exactly when the password and the resume are there, the contacts could be read
  (full mode), and the operator either answers something other than \<open>y\<close> or answers \<open>y\<close>
  and the SMTP session opens; the outcome of the individual sends, in test mode as in
  full mode, does not change it. For \<open>send_email.py\<close> it is 0 exactly when a founder and
  an address were extracted and the operator either answers something other than \<open>y\<close>
  or answers \<open>y\<close> and the mail is sent. In every other case, each a validation failure
  or a fatal runtime error, it is 1.
\<close>

theorem exit_code_zero_or_one:
  "exit_code (snd (bulk_main w)) =
     (if str_truthy (getenv w ''GMAIL_APP_PASSWORD_CODES04'') \<and> resume_exists w
         \<and> (''--test'' \<in> set (argv w) \<or> returns (snd (read_contacts_sheet2 w 4)))
         \<and> (declined w \<or> (confirmed w \<and> smtp_login w = None))
      then 0 else 1)
   \<and> exit_code (snd (bulk_main (w\<lparr>send_result := sr\<rparr>))) = exit_code (snd (bulk_main w))
   \<and> exit_code (snd (send_email_main w)) =
     (if founder_recipient w \<noteq> None
         \<and> (declined w
              \<or> (confirmed w \<and> str_truthy (getenv w ''GMAIL_APP_PASSWORD'') \<and> resume_exists w
                  \<and> smtp_login w = None \<and> send_result w 1 = None))
      then 0 else 1)"
proof -
  have 2: "exit_code (snd (bulk_main (w\<lparr>send_result := sr\<rparr>))) = exit_code (snd (bulk_main w))"
    unfolding exit_bulk_main by (simp add: read_contacts_sheet2_def)
  show ?thesis
    by (rule conjI [OF exit_bulk_main conjI [OF 2 exit_send_email_main]])
qed

theorem exit_code_zero_or_one_counterexample:
  "bulk_main test_fail_world =
     ([Prompt ''Send test email? (y/n): '', SmtpConnect, SendCold test_contact,
       Stderr ''   Failed: Connection unexpectedly closed'', Stderr ''Test email failed.''],
      Inr ())
   \<and> exit_code (snd (bulk_main test_fail_world)) = 0"
  by code_simp

theorem exit_code_zero_or_one_witness:
  "exit_code (snd (bulk_main test_fail_world)) = 0
   \<and> exit_code (snd (bulk_main (bulk_world\<lparr>smtp_login := Some (Exn SMTPAuthenticationError ''535'')\<rparr>))) = 1
   \<and> exit_code (snd (send_email_main (founder_world\<lparr>input_line := Some ''no''\<rparr>))) = 0
   \<and> exit_code (snd (send_email_main null_world)) = 1"
proof -
  note t = exit_code_zero_or_one
  have r1: "(if str_truthy (getenv test_fail_world ''GMAIL_APP_PASSWORD_CODES04'')
         \<and> resume_exists test_fail_world
         \<and> (''--test'' \<in> set (argv test_fail_world)
             \<or> returns (snd (read_contacts_sheet2 test_fail_world 4)))
         \<and> (declined test_fail_world \<or> (confirmed test_fail_world \<and> smtp_login test_fail_world = None))
      then 0 else 1) = (0::nat)"
    by code_simp
  let ?w2 = "bulk_world\<lparr>smtp_login := Some (Exn SMTPAuthenticationError ''535'')\<rparr>"
  have r2: "(if str_truthy (getenv ?w2 ''GMAIL_APP_PASSWORD_CODES04'') \<and> resume_exists ?w2
         \<and> (''--test'' \<in> set (argv ?w2) \<or> returns (snd (read_contacts_sheet2 ?w2 4)))
         \<and> (declined ?w2 \<or> (confirmed ?w2 \<and> smtp_login ?w2 = None))
      then 0 else 1) = (1::nat)"
    by code_simp
  let ?w3 = "founder_world\<lparr>input_line := Some ''no''\<rparr>"
  have r3: "(if founder_recipient ?w3 \<noteq> None
         \<and> (declined ?w3
              \<or> (confirmed ?w3 \<and> str_truthy (getenv ?w3 ''GMAIL_APP_PASSWORD'') \<and> resume_exists ?w3
                  \<and> smtp_login ?w3 = None \<and> send_result ?w3 1 = None))
      then 0 else 1) = (0::nat)"
    by code_simp
  have r4: "(if founder_recipient null_world \<noteq> None
         \<and> (declined null_world
              \<or> (confirmed null_world \<and> str_truthy (getenv null_world ''GMAIL_APP_PASSWORD'')
                  \<and> resume_exists null_world
                  \<and> smtp_login null_world = None \<and> send_result null_world 1 = None))
      then 0 else 1) = (1::nat)"
    by code_simp
  show ?thesis
    by (intro conjI
          trans [OF t [of test_fail_world, THEN conjunct1] r1]
          trans [OF t [of ?w2, THEN conjunct1] r2]
          trans [OF t [of ?w3, THEN conjunct2, THEN conjunct2] r3]
          trans [OF t [of null_world, THEN conjunct2, THEN conjunct2] r4])
qed

section \<open>Missing secrets\<close>

lemma extract_no_key:
  "\<not> str_truthy (getenv w ''GROQ_API_KEY'') \<Longrightarrow>
   extract_founder_info w profiles = ([Stderr GROQ_KEY_ERROR], Inl (SysExit 1))"
  by (simp add: extract_founder_info_def sys_exit_def)

lemma send_email_main_no_key:
  "\<not> str_truthy (getenv w ''GROQ_API_KEY'') \<Longrightarrow>
   send_email_main w =
     (case snd (scrape_unravel_profiles w) of
        Inl a \<Rightarrow> (fst (scrape_unravel_profiles w), Inl a)
      | Inr profiles \<Rightarrow> (fst (scrape_unravel_profiles w) @ [Stderr GROQ_KEY_ERROR], Inl (SysExit 1)))"
  by (simp add: send_email_main_def and_then_eq [of "scrape_unravel_profiles w"] extract_no_key
        and_then_Inl [OF refl] split: sum.splits)

lemma send_application_email_no_password:
  "\<not> str_truthy (getenv w ''GMAIL_APP_PASSWORD'') \<Longrightarrow>
   send_application_email w recipient =
     ([Stderr ''Error: GMAIL_APP_PASSWORD environment variable is not set.''], Inl (SysExit 1))"
  by (simp add: send_application_email_def sys_exit_def)

lemma extract_no_smtp: "filter is_smtp (fst (extract_founder_info w profiles)) = []"
  by (auto simp: extract_founder_info_def sys_exit_def raise_def ret_def Let_def
        split: sum.splits)

lemma fst_dict_get: "fst (dict_get v k) = []"
  by (cases v) (simp_all add: ret_def raise_def)

lemma fst_py_input: "fst (py_input w prompt) = [Prompt prompt]"
  by (simp add: py_input_def raise_def ret_def split: option.splits)

lemma send_email_main_no_password_smtp:
  "\<not> str_truthy (getenv w ''GMAIL_APP_PASSWORD'') \<Longrightarrow>
   filter is_smtp (fst (send_email_main w)) = []"
  by (auto simp: send_email_main_def fst_and_then scrape_no_smtp extract_no_smtp fst_dict_get
        fst_py_input send_application_email_no_password sys_exit_def Let_def
        split: sum.splits)

lemma send_email_main_no_password_last:
  assumes pw: "\<not> str_truthy (getenv w ''GMAIL_APP_PASSWORD'')"
    and fr: "founder_recipient w \<noteq> None" and ok: "confirmed w"
  shows "last (fst (send_email_main w)) =
         Stderr ''Error: GMAIL_APP_PASSWORD environment variable is not set.''"
proof -
  from fr obtain profiles where scr: "snd (scrape_unravel_profiles w) = Inr profiles"
    by (auto simp: founder_recipient_def split: sum.splits)
  from fr scr obtain kvs where ext: "snd (extract_founder_info w profiles) = Inr (JObj kvs)"
    by (auto simp: founder_recipient_def split: sum.splits json.splits)
  from ok obtain line where inp: "input_line w = Some line" "py_lower (py_strip line) = ''y''"
    by (auto simp: confirmed_def split: option.splits)
  from fr scr ext have tr: "json_truthy (case map_of kvs ''founder_name'' of Some v \<Rightarrow> v | None \<Rightarrow> JNull)"
      "json_truthy (case map_of kvs ''email'' of Some v \<Rightarrow> v | None \<Rightarrow> JNull)"
    by (auto simp: founder_recipient_def Let_def split: if_splits)
  show ?thesis
    using scr ext inp tr
    by (simp add: send_email_main_def fst_and_then snd_and_then ret_def snd_py_input fst_py_input
          send_application_email_no_password [OF pw] Let_def)
qed

text \<open>
  C2, as amended. \<open>bulk_email.py\<close> checks its password first: when it is absent the run
  writes the error message and exits with code 1, and nothing else happens.
  \<open>send_email.py\<close> checks each secret where it is used. The page fetches always come
  first; when the API key is absent the run exits with code 1, its only network
  activity being page fetches, and once the pages were scraped the exit follows the
  message about the key, with no chat request and no SMTP session. When the SMTP
  password is absent no SMTP session is ever opened; the run exits with code 1, after
  the message about the password if the operator confirmed, unless the operator
  declined at the prompt, which exits with code 0.
\<close>

theorem missing_secret_exits:
  "(\<not> str_truthy (getenv w ''GMAIL_APP_PASSWORD_CODES04'') \<longrightarrow>
      bulk_main w = ([Stderr ''Error: GMAIL_APP_PASSWORD not set in .env''], Inl (SysExit 1)))
   \<and> (\<not> str_truthy (getenv w ''GROQ_API_KEY'') \<longrightarrow>
        exit_code (snd (send_email_main w)) = 1
        \<and> list_all is_fetch (network_events (fst (send_email_main w)))
        \<and> (snd (scrape_unravel_profiles w) = Inr profiles \<longrightarrow>
             send_email_main w =
               (fst (scrape_unravel_profiles w) @ [Stderr GROQ_KEY_ERROR], Inl (SysExit 1))))
   \<and> (\<not> str_truthy (getenv w ''GMAIL_APP_PASSWORD'') \<longrightarrow>
        filter is_smtp (fst (send_email_main w)) = []
        \<and> exit_code (snd (send_email_main w)) =
            (if founder_recipient w \<noteq> None \<and> declined w then 0 else 1)
        \<and> (founder_recipient w \<noteq> None \<and> confirmed w \<longrightarrow>
             last (fst (send_email_main w)) =
               Stderr ''Error: GMAIL_APP_PASSWORD environment variable is not set.''))"
proof -
  have 1: "\<not> str_truthy (getenv w ''GMAIL_APP_PASSWORD_CODES04'') \<longrightarrow>
      bulk_main w = ([Stderr ''Error: GMAIL_APP_PASSWORD not set in .env''], Inl (SysExit 1))"
    by (simp add: bulk_main_def sys_exit_def)
  have 2: "\<not> str_truthy (getenv w ''GROQ_API_KEY'') \<longrightarrow>
        exit_code (snd (send_email_main w)) = 1
        \<and> list_all is_fetch (network_events (fst (send_email_main w)))
        \<and> (snd (scrape_unravel_profiles w) = Inr profiles \<longrightarrow>
             send_email_main w =
               (fst (scrape_unravel_profiles w) @ [Stderr GROQ_KEY_ERROR], Inl (SysExit 1)))"
  proof
    assume k: "\<not> str_truthy (getenv w ''GROQ_API_KEY'')"
    note m = send_email_main_no_key [OF k]
    have a: "exit_code (snd (send_email_main w)) = 1"
      unfolding m using scrape_abort [of w] by (simp split: sum.splits)
    have b: "list_all is_fetch (network_events (fst (send_email_main w)))"
      unfolding m using scrape_network [of w] by (simp add: network_events_def split: sum.splits)
    have c: "snd (scrape_unravel_profiles w) = Inr profiles \<longrightarrow>
             send_email_main w =
               (fst (scrape_unravel_profiles w) @ [Stderr GROQ_KEY_ERROR], Inl (SysExit 1))"
      unfolding m by simp
    show "exit_code (snd (send_email_main w)) = 1
        \<and> list_all is_fetch (network_events (fst (send_email_main w)))
        \<and> (snd (scrape_unravel_profiles w) = Inr profiles \<longrightarrow>
             send_email_main w =
               (fst (scrape_unravel_profiles w) @ [Stderr GROQ_KEY_ERROR], Inl (SysExit 1)))"
      by (intro conjI a b c)
  qed
  have 3: "\<not> str_truthy (getenv w ''GMAIL_APP_PASSWORD'') \<longrightarrow>
        filter is_smtp (fst (send_email_main w)) = []
        \<and> exit_code (snd (send_email_main w)) =
            (if founder_recipient w \<noteq> None \<and> declined w then 0 else 1)
        \<and> (founder_recipient w \<noteq> None \<and> confirmed w \<longrightarrow>
             last (fst (send_email_main w)) =
               Stderr ''Error: GMAIL_APP_PASSWORD environment variable is not set.'')"
  proof
    assume p: "\<not> str_truthy (getenv w ''GMAIL_APP_PASSWORD'')"
    have a: "filter is_smtp (fst (send_email_main w)) = []"
      by (rule send_email_main_no_password_smtp [OF p])
    have b: "exit_code (snd (send_email_main w)) =
            (if founder_recipient w \<noteq> None \<and> declined w then 0 else 1)"
      unfolding exit_send_email_main using p by simp
    have c: "founder_recipient w \<noteq> None \<and> confirmed w \<longrightarrow>
             last (fst (send_email_main w)) =
               Stderr ''Error: GMAIL_APP_PASSWORD environment variable is not set.''"
      using send_email_main_no_password_last [OF p] by simp
    show "filter is_smtp (fst (send_email_main w)) = []
        \<and> exit_code (snd (send_email_main w)) =
            (if founder_recipient w \<noteq> None \<and> declined w then 0 else 1)
        \<and> (founder_recipient w \<noteq> None \<and> confirmed w \<longrightarrow>
             last (fst (send_email_main w)) =
               Stderr ''Error: GMAIL_APP_PASSWORD environment variable is not set.'')"
      by (intro conjI a b c)
  qed
  show ?thesis
    by (rule conjI [OF 1 conjI [OF 2 3]])
qed

theorem missing_secret_exits_counterexample:
  "\<not> str_truthy (getenv no_key_world ''GROQ_API_KEY'')
   \<and> network_events (fst (send_email_main no_key_world)) =
       [HttpGet ''https://unravel.tech'', HttpGet ''https://unravel.tech/blog'',
        HttpGet ''https://unravel.tech/talks'']
   \<and> snd (send_email_main no_key_world) = Inl (SysExit 1)
   \<and> \<not> str_truthy (getenv (no_password_world\<lparr>input_line := Some ''n''\<rparr>) ''GMAIL_APP_PASSWORD'')
   \<and> exit_code (snd (send_email_main (no_password_world\<lparr>input_line := Some ''n''\<rparr>))) = 0"
  by code_simp

theorem missing_secret_exits_witness:
  "\<not> str_truthy (getenv (bulk_world\<lparr>getenv := (\<lambda>k. None)\<rparr>) ''GMAIL_APP_PASSWORD_CODES04'')
   \<and> bulk_main (bulk_world\<lparr>getenv := (\<lambda>k. None)\<rparr>) =
       ([Stderr ''Error: GMAIL_APP_PASSWORD not set in .env''], Inl (SysExit 1))
   \<and> \<not> str_truthy (getenv no_key_world ''GROQ_API_KEY'')
   \<and> exit_code (snd (send_email_main no_key_world)) = 1
   \<and> list_all is_fetch (network_events (fst (send_email_main no_key_world)))
   \<and> snd (scrape_unravel_profiles no_key_world) = Inr null_profiles
   \<and> send_email_main no_key_world =
       (fst (scrape_unravel_profiles no_key_world) @ [Stderr GROQ_KEY_ERROR], Inl (SysExit 1))
   \<and> \<not> str_truthy (getenv no_password_world ''GMAIL_APP_PASSWORD'')
   \<and> filter is_smtp (fst (send_email_main no_password_world)) = []
   \<and> founder_recipient no_password_world \<noteq> None \<and> confirmed no_password_world
   \<and> last (fst (send_email_main no_password_world)) =
       Stderr ''Error: GMAIL_APP_PASSWORD environment variable is not set.''"
proof -
  note t = missing_secret_exits
  let ?w1 = "bulk_world\<lparr>getenv := (\<lambda>k. None)\<rparr>"
  have h1: "\<not> str_truthy (getenv ?w1 ''GMAIL_APP_PASSWORD_CODES04'')" by code_simp
  note c1 = t [of ?w1, THEN conjunct1, THEN mp, OF h1]
  have h2: "\<not> str_truthy (getenv no_key_world ''GROQ_API_KEY'')" by code_simp
  note c2 = t [of no_key_world null_profiles, THEN conjunct2, THEN conjunct1, THEN mp, OF h2]
  have h2s: "snd (scrape_unravel_profiles no_key_world) = Inr null_profiles" by code_simp
  note c2c = c2 [THEN conjunct2, THEN conjunct2, THEN mp, OF h2s]
  have h3: "\<not> str_truthy (getenv no_password_world ''GMAIL_APP_PASSWORD'')" by code_simp
  note c3 = t [of no_password_world, THEN conjunct2, THEN conjunct2, THEN mp, OF h3]
  have h3a: "founder_recipient no_password_world \<noteq> None" by code_simp
  have h3b: "confirmed no_password_world" by code_simp
  note c3c = c3 [THEN conjunct2, THEN conjunct2, THEN mp, OF conjI [OF h3a h3b]]
  show ?thesis
    by (intro conjI h1 c1 h2 c2 [THEN conjunct1] c2 [THEN conjunct2, THEN conjunct1] h2s c2c
          h3 c3 [THEN conjunct1] h3a h3b c3c)
qed

end
